theory Spec2Isabelle
  imports
    Main
    "HOL-Library.Char_ord"
    "HOL-Library.List_Lexorder"
    "HOL-Library.Multiset"
    "HOL-Library.Sublist"
    "HOL-Library.Word"
begin

unbundle bit_operations_syntax

section \<open>Go strings as byte lists\<close>

text \<open>
  A Go \<^verbatim>\<open>string\<close> is a sequence of bytes; the model uses \<^typ>\<open>string\<close>
  (a list of 8-bit characters). Text outside ASCII appears as its UTF-8 bytes: the
  arrow U+2192 that separates the two halves of a date range is the three bytes
  E2 86 92.
\<close>

definition arrow :: string where
  "arrow = [CHR 0xE2, CHR 0x86, CHR 0x92]"

text \<open>\<^verbatim>\<open>strings.Index(s, sep)\<close>: the offset of the first occurrence, if any.\<close>

fun Index :: "string \<Rightarrow> string \<Rightarrow> nat option" where
  "Index [] sep = (if sep = [] then Some 0 else None)"
| "Index (c # cs) sep =
     (if prefix sep (c # cs) then Some 0
      else (case Index cs sep of None \<Rightarrow> None | Some i \<Rightarrow> Some (Suc i)))"

definition Contains :: "string \<Rightarrow> string \<Rightarrow> bool" where
  "Contains s substr = (Index s substr \<noteq> None)"

definition HasSuffix :: "string \<Rightarrow> string \<Rightarrow> bool" where
  "HasSuffix s suf = suffix suf s"

text \<open>
  \<^verbatim>\<open>strings.SplitN(s, sep, 2)\<close> for a non-empty separator (the only call has the
  arrow): the text before the first occurrence and everything after it, or the
  whole string alone when the separator does not occur.
\<close>

definition SplitN2 :: "string \<Rightarrow> string \<Rightarrow> string list" where
  "SplitN2 s sep =
     (case Index s sep of
        None \<Rightarrow> [s]
      | Some m \<Rightarrow> [take m s, drop (m + length sep) s])"

text \<open>
  \<^verbatim>\<open>strings.TrimSpace\<close> removes leading and trailing Unicode white space. On the
  bytes these are the six ASCII space characters and the UTF-8 encodings of U+0085,
  U+00A0, U+1680, U+2000..U+200A, U+2028, U+2029, U+202F, U+205F and U+3000.
\<close>

definition spaces :: "string list" where
  "spaces =
     [[CHR 0x09], [CHR 0x0A], [CHR 0x0B], [CHR 0x0C], [CHR 0x0D], [CHR 0x20],
      [CHR 0xC2, CHR 0x85], [CHR 0xC2, CHR 0xA0], [CHR 0xE1, CHR 0x9A, CHR 0x80],
      [CHR 0xE2, CHR 0x80, CHR 0x80], [CHR 0xE2, CHR 0x80, CHR 0x81],
      [CHR 0xE2, CHR 0x80, CHR 0x82], [CHR 0xE2, CHR 0x80, CHR 0x83],
      [CHR 0xE2, CHR 0x80, CHR 0x84], [CHR 0xE2, CHR 0x80, CHR 0x85],
      [CHR 0xE2, CHR 0x80, CHR 0x86], [CHR 0xE2, CHR 0x80, CHR 0x87],
      [CHR 0xE2, CHR 0x80, CHR 0x88], [CHR 0xE2, CHR 0x80, CHR 0x89],
      [CHR 0xE2, CHR 0x80, CHR 0x8A], [CHR 0xE2, CHR 0x80, CHR 0xA8],
      [CHR 0xE2, CHR 0x80, CHR 0xA9], [CHR 0xE2, CHR 0x80, CHR 0xAF],
      [CHR 0xE2, CHR 0x81, CHR 0x9F], [CHR 0xE3, CHR 0x80, CHR 0x80]]"

function TrimLeft :: "string \<Rightarrow> string" where
  "TrimLeft s =
     (case List.find (\<lambda>sp. prefix sp s) spaces of
        None \<Rightarrow> s
      | Some sp \<Rightarrow> if sp = [] then s else TrimLeft (drop (length sp) s))"
  by pat_completeness auto
termination
proof (relation "measure length")
  show "wf (measure length)" by simp
next
  fix s :: string and sp :: string
  assume f: "List.find (\<lambda>sp. prefix sp s) spaces = Some sp" and ne: "sp \<noteq> []"
  from f have "prefix sp s" by (auto simp: find_Some_iff)
  with ne have "s \<noteq> []" by auto
  with ne show "(drop (length sp) s, s) \<in> measure length" by simp
qed

function TrimRight :: "string \<Rightarrow> string" where
  "TrimRight s =
     (case List.find (\<lambda>sp. suffix sp s) spaces of
        None \<Rightarrow> s
      | Some sp \<Rightarrow> if sp = [] then s else TrimRight (take (length s - length sp) s))"
  by pat_completeness auto
termination
proof (relation "measure length")
  show "wf (measure length)" by simp
next
  fix s :: string and sp :: string
  assume f: "List.find (\<lambda>sp. suffix sp s) spaces = Some sp" and ne: "sp \<noteq> []"
  from f have "suffix sp s" by (auto simp: find_Some_iff)
  with ne have "s \<noteq> []" by auto
  with ne show "(take (length s - length sp) s, s) \<in> measure length" by simp
qed

declare TrimLeft.simps [simp del] TrimRight.simps [simp del]

definition TrimSpace :: "string \<Rightarrow> string" where
  "TrimSpace s = TrimRight (TrimLeft s)"

section \<open>The part of Go's time package that the date parser uses\<close>

text \<open>
  A \<^verbatim>\<open>*time.Location\<close> is a time zone: its name, the offset from UTC (seconds
  east) in force before its first transition, and its transitions in ascending
  order, each the instant (seconds since 1970-01-01T00:00:00Z) from which a new
  offset is in force. \<^verbatim>\<open>time.UTC\<close> and \<^verbatim>\<open>time.FixedZone\<close> have no transition; a zone
  that \<^verbatim>\<open>time.LoadLocation\<close> reads from the zone database has the daylight-saving
  changes of its region.
\<close>

record Location =
  zoneName :: string
  firstOffset :: int
  transitions :: "(int \<times> int) list"

definition UTC :: Location where
  "UTC = \<lparr>zoneName = ''UTC'', firstOffset = 0, transitions = []\<rparr>"

text \<open>
  \<^verbatim>\<open>l.lookup(sec)\<close>: the offset in force at the instant \<open>sec\<close>, with the instants at
  which that offset starts and ends; \<open>None\<close> is no bound on that side.
\<close>

fun lookupFrom ::
  "int \<Rightarrow> int option \<Rightarrow> (int \<times> int) list \<Rightarrow> int \<Rightarrow> int \<times> int option \<times> int option" where
  "lookupFrom offset start [] sec = (offset, start, None)"
| "lookupFrom offset start ((w, offset') # tx) sec =
     (if sec < w then (offset, start, Some w)
      else lookupFrom offset' (Some w) tx sec)"

definition zoneLookup :: "Location \<Rightarrow> int \<Rightarrow> int \<times> int option \<times> int option" where
  "zoneLookup l sec = lookupFrom (firstOffset l) None (transitions l) sec"

definition offsetAt :: "Location \<Rightarrow> int \<Rightarrow> int" where
  "offsetAt l sec = fst (zoneLookup l sec)"

text \<open>
  A \<^verbatim>\<open>time.Time\<close> is an instant shown in a location. It is modelled by the calendar
  fields that the instant has in the location, together with the offset in force
  at the instant (\<^verbatim>\<open>t.Zone()\<close>), so that the instant is the calendar reading minus the
  offset. Months are the numbers 1 to 12.
\<close>

record Time =
  Year :: int
  Month :: int
  Day :: int
  Hour :: int
  Minute :: int
  Second :: int
  Nanosecond :: int
  ZoneOffset :: int
  Location :: Location

definition isLeap :: "int \<Rightarrow> bool" where
  "isLeap y = (y mod 4 = 0 \<and> (y mod 100 \<noteq> 0 \<or> y mod 400 = 0))"

text \<open>\<^verbatim>\<open>daysBefore[m]\<close>: days of a non-leap year before month \<open>m + 1\<close>.\<close>

definition daysBefore :: "int list" where
  "daysBefore = [0, 31, 59, 90, 120, 151, 181, 212, 243, 273, 304, 334, 365]"

definition daysIn :: "int \<Rightarrow> int \<Rightarrow> int" where
  "daysIn m y =
     (if m = 2 \<and> isLeap y then 29
      else daysBefore ! nat m - daysBefore ! nat (m - 1))"

text \<open>\<^verbatim>\<open>norm(hi, lo, base)\<close>: carry whole multiples of \<open>base\<close> from \<open>lo\<close> into \<open>hi\<close>.\<close>

definition norm :: "int \<Rightarrow> int \<Rightarrow> int \<Rightarrow> int \<times> int" where
  "norm hi lo base =
     (let (hi1, lo1) =
            (if lo < 0 then let n = (- lo - 1) div base + 1 in (hi - n, lo + n * base)
             else (hi, lo))
      in if lo1 \<ge> base then let n = lo1 div base in (hi1 + n, lo1 - n * base)
         else (hi1, lo1))"

text \<open>
  A day number outside its month moves into the neighbouring months, one month at a
  time; Go reaches the same date by counting days from its epoch. The month is in
  1..12 here, where \<open>monthDays\<close> is \<open>daysIn\<close>.
\<close>

definition monthDays :: "int \<Rightarrow> int \<Rightarrow> int" where
  "monthDays m y = min 31 (max 28 (daysIn m y))"

function normDay :: "int \<Rightarrow> int \<Rightarrow> int \<Rightarrow> int \<times> int \<times> int" where
  "normDay y m d =
     (if d < 1 then
        (let (y', m') = (if m \<le> 1 then (y - 1, 12) else (y, m - 1))
         in normDay y' m' (d + monthDays m' y'))
      else if d > monthDays m y then
        (let (y', m') = (if m \<ge> 12 then (y + 1, 1) else (y, m + 1))
         in normDay y' m' (d - monthDays m y))
      else (y, m, d))"
  by pat_completeness auto
termination
  by (relation "measure (\<lambda>(y, m, d). if d < 1 then nat (100 - d) else nat d)")
     (auto simp: monthDays_def split: if_splits prod.splits)

declare normDay.simps [simp del]

text \<open>
  The first half of \<^verbatim>\<open>time.Date\<close>: the month overflows into the year, then
  nanoseconds, seconds, minutes and hours overflow upwards into the day, and the day
  into month and year. The result is the calendar reading that was asked for, with
  every field in its range.
\<close>

definition normalizeDate ::
  "int \<Rightarrow> int \<Rightarrow> int \<Rightarrow> int \<Rightarrow> int \<Rightarrow> int \<Rightarrow> int \<Rightarrow> int \<times> int \<times> int \<times> int \<times> int \<times> int \<times> int" where
  "normalizeDate y mo d h mi s ns =
     (let (y1, m0) = norm y (mo - 1) 12;
          (s1, ns1) = norm s ns 1000000000;
          (mi1, s2) = norm mi s1 60;
          (h1, mi2) = norm h mi1 60;
          (d1, h2) = norm d h1 24;
          (y2, m2, d2) = normDay y1 (m0 + 1) d1
      in (y2, m2, d2, h2, mi2, s2, ns1))"

text \<open>Seconds from 1970-01-01T00:00:00 to a calendar reading, both on the same clock.\<close>

definition daysSinceEpoch :: "int \<Rightarrow> int \<Rightarrow> int \<Rightarrow> int" where
  "daysSinceEpoch y m d =
     365 * (y - 1) + (y - 1) div 4 - (y - 1) div 100 + (y - 1) div 400
     + daysBefore ! nat (m - 1) + (if isLeap y \<and> m \<ge> 3 then 1 else 0) + (d - 1) - 719162"

definition wallSeconds :: "int \<Rightarrow> int \<Rightarrow> int \<Rightarrow> int \<Rightarrow> int \<Rightarrow> int \<Rightarrow> int" where
  "wallSeconds y m d h mi s = daysSinceEpoch y m d * 86400 + h * 3600 + mi * 60 + s"

text \<open>
  The second half of \<^verbatim>\<open>time.Date\<close> finds the offset to take off the calendar reading.
  It looks the reading up as if it were an instant; when the instant that this
  offset gives lies outside the period in which the offset is in force, the reading
  is near a transition and the offset in force at that instant is used instead.
\<close>

definition outside :: "int \<Rightarrow> int option \<Rightarrow> int option \<Rightarrow> bool" where
  "outside utc start stop =
     ((case start of Some a \<Rightarrow> utc < a | None \<Rightarrow> False)
      \<or> (case stop of Some b \<Rightarrow> utc \<ge> b | None \<Rightarrow> False))"

definition dateOffset :: "Location \<Rightarrow> int \<Rightarrow> int" where
  "dateOffset l unix =
     (case zoneLookup l unix of (offset, start, stop) \<Rightarrow>
        if offset \<noteq> 0
        then (let utc = unix - offset
              in if outside utc start stop then offsetAt l utc else offset)
        else offset)"

text \<open>
  \<^verbatim>\<open>time.Date\<close> returns the instant \<open>unix - dateOffset l unix\<close> in the location. Its
  calendar fields are those of the instant plus the offset in force at the
  instant. When that offset is the one taken off, they are the reading asked for;
  for a reading that a transition skips the two differ, and the fields are the
  reading moved by the difference.
\<close>

definition Date :: "int \<Rightarrow> int \<Rightarrow> int \<Rightarrow> int \<Rightarrow> int \<Rightarrow> int \<Rightarrow> int \<Rightarrow> Location \<Rightarrow> Time" where
  "Date y mo d h mi s ns l =
     (case normalizeDate y mo d h mi s ns of (y2, m2, d2, h2, mi2, s2, ns1) \<Rightarrow>
        let unix = wallSeconds y2 m2 d2 h2 mi2 s2;
            offset = dateOffset l unix;
            shown = offsetAt l (unix - offset)
        in case normalizeDate y2 m2 d2 h2 mi2 (s2 + (shown - offset)) ns1 of
             (y3, m3, d3, h3, mi3, s3, ns3) \<Rightarrow>
               \<lparr>Year = y3, Month = m3, Day = d3, Hour = h3, Minute = mi3, Second = s3,
                Nanosecond = ns3, ZoneOffset = shown, Location = l\<rparr>)"

text \<open>\<^verbatim>\<open>t.Unix()\<close>: seconds since 1970-01-01T00:00:00Z, and the order of instants.\<close>

definition Unix :: "Time \<Rightarrow> int" where
  "Unix t =
     wallSeconds (Year t) (Month t) (Day t) (Hour t) (Minute t) (Second t) - ZoneOffset t"

definition Before :: "Time \<Rightarrow> Time \<Rightarrow> bool" where
  "Before t u = (Unix t < Unix u \<or> (Unix t = Unix u \<and> Nanosecond t < Nanosecond u))"

subsection \<open>Layouts\<close>

text \<open>
  The layout verbs that occur in this program's six layouts. \<^verbatim>\<open>nextStdChunk\<close>
  finds the first verb of a layout: the literal text before it, the verb, and the
  rest; \<open>verbs\<close> lists the verbs in the order in which Go tests them at one
  position. The other verbs of Go's layouts (short month and weekday names, zones,
  two-digit years, seconds, fractions) occur in no layout of this program and are
  read as literal text by this model.
\<close>

datatype std =
    stdLongMonth | stdZeroMonth | stdDay | stdZeroDay | stdHour | stdHour12
  | stdZeroMinute | stdLongYear | stdPM

definition verbs :: "(string \<times> std) list" where
  "verbs =
     [(''January'', stdLongMonth), (''01'', stdZeroMonth), (''02'', stdZeroDay),
      (''04'', stdZeroMinute), (''15'', stdHour), (''2006'', stdLongYear),
      (''2'', stdDay), (''3'', stdHour12), (''PM'', stdPM)]"

fun nextStdChunk :: "string \<Rightarrow> string \<times> std option \<times> string" where
  "nextStdChunk [] = ([], None, [])"
| "nextStdChunk (c # cs) =
     (case List.find (\<lambda>(w, sd). prefix w (c # cs)) verbs of
        Some (w, sd) \<Rightarrow> ([], Some sd, drop (length w) (c # cs))
      | None \<Rightarrow> (case nextStdChunk cs of (p, sd, suf) \<Rightarrow> (c # p, sd, suf)))"

subsection \<open>Reading one value\<close>

definition isDigit :: "string \<Rightarrow> nat \<Rightarrow> bool" where
  "isDigit s i = (i < length s \<and> CHR ''0'' \<le> s ! i \<and> s ! i \<le> CHR ''9'')"

definition digit :: "char \<Rightarrow> int" where
  "digit c = int (of_char c) - 48"

definition getnum :: "string \<Rightarrow> bool \<Rightarrow> (int \<times> string) option" where
  "getnum s fixed =
     (if \<not> isDigit s 0 then None
      else if \<not> isDigit s 1 then (if fixed then None else Some (digit (s ! 0), drop 1 s))
      else Some (digit (s ! 0) * 10 + digit (s ! 1), drop 2 s))"

text \<open>
  \<^verbatim>\<open>atoi\<close>: an optional sign and then digits only. (Go also refuses numbers beyond
  64 bits; the one call passes four characters.)
\<close>

definition atoi :: "string \<Rightarrow> int option" where
  "atoi s =
     (let neg = (s \<noteq> [] \<and> hd s = CHR ''-'');
          ds = (if s \<noteq> [] \<and> (hd s = CHR ''-'' \<or> hd s = CHR ''+'') then tl s else s)
      in if list_all (\<lambda>c. CHR ''0'' \<le> c \<and> c \<le> CHR ''9'') ds
         then (let x = foldl (\<lambda>a c. a * 10 + digit c) 0 ds in Some (if neg then - x else x))
         else None)"

text \<open>\<^verbatim>\<open>match\<close>: two strings of one length are equal when the case of letters is ignored.\<close>

definition orCase :: "char \<Rightarrow> char" where
  "orCase c = char_of ((of_char c :: nat) OR 32)"

definition match :: "string \<Rightarrow> string \<Rightarrow> bool" where
  "match s1 s2 =
     list_all (\<lambda>(c1, c2). c1 = c2 \<or>
        (orCase c1 = orCase c2 \<and> \<not> orCase c1 < CHR ''a'' \<and> \<not> orCase c1 > CHR ''z''))
       (zip s1 s2)"

definition longMonthNames :: "string list" where
  "longMonthNames =
     [''January'', ''February'', ''March'', ''April'', ''May'', ''June'', ''July'',
      ''August'', ''September'', ''October'', ''November'', ''December'']"

text \<open>\<^verbatim>\<open>lookup\<close>: the index of the first name that starts the text, and the rest.\<close>

fun lookup :: "string list \<Rightarrow> string \<Rightarrow> (int \<times> string) option" where
  "lookup [] val = None"
| "lookup (v # tab) val =
     (if length val \<ge> length v \<and> match (take (length v) val) v
      then Some (0, drop (length v) val)
      else (case lookup tab val of None \<Rightarrow> None | Some (i, r) \<Rightarrow> Some (i + 1, r)))"

definition cutspace :: "string \<Rightarrow> string" where
  "cutspace s = dropWhile (\<lambda>c. c = CHR '' '') s"

text \<open>
  \<^verbatim>\<open>skip\<close>: the text must start with the literal prefix; a space of the prefix
  stands for any run of spaces, also an empty one at the end of the text.
\<close>

function skip :: "string \<Rightarrow> string \<Rightarrow> string option" where
  "skip v [] = Some v"
| "skip v (p # ps) =
     (if p = CHR '' '' then
        (if v \<noteq> [] \<and> hd v \<noteq> CHR '' '' then None
         else skip (cutspace v) (cutspace (p # ps)))
      else if v = [] \<or> hd v \<noteq> p then None
      else skip (tl v) ps)"
  by pat_completeness auto
termination
proof (relation "measure (\<lambda>(v, p). length p)")
  show "wf (measure (\<lambda>(v, p). length p))" by simp
next
  fix v :: string and p :: char and ps :: string
  assume "p = CHR '' ''"
  then have "length (cutspace (p # ps)) \<le> length ps"
    by (simp add: cutspace_def length_dropWhile_le)
  then show "((cutspace v, cutspace (p # ps)), (v, p # ps)) \<in> measure (\<lambda>(v, p). length p)"
    by simp
next
  fix v :: string and p :: char and ps :: string
  show "((tl v, ps), (v, p # ps)) \<in> measure (\<lambda>(v, p). length p)" by simp
qed

subsection \<open>\<^verbatim>\<open>time.ParseInLocation\<close>\<close>

record pstate =
  pyear :: int
  pmonth :: int
  pday :: int
  phour :: int
  pmin :: int
  amSet :: bool
  pmSet :: bool

definition pstate0 :: pstate where
  "pstate0 = \<lparr>pyear = 0, pmonth = - 1, pday = - 1, phour = 0, pmin = 0,
              amSet = False, pmSet = False\<rparr>"

text \<open>
  One verb reads its value from the front of the text; \<open>None\<close> is a parse error
  (a malformed value or one out of range).
\<close>

fun parseStd :: "std \<Rightarrow> string \<Rightarrow> pstate \<Rightarrow> (string \<times> pstate) option" where
  "parseStd stdLongYear v st =
     (if length v < 4 \<or> \<not> isDigit v 0 then None
      else (case atoi (take 4 v) of
              None \<Rightarrow> None
            | Some y \<Rightarrow> Some (drop 4 v, st\<lparr>pyear := y\<rparr>)))"
| "parseStd stdLongMonth v st =
     (case lookup longMonthNames v of
        None \<Rightarrow> None
      | Some (i, r) \<Rightarrow> Some (r, st\<lparr>pmonth := i + 1\<rparr>))"
| "parseStd stdZeroMonth v st =
     (case getnum v True of
        None \<Rightarrow> None
      | Some (m, r) \<Rightarrow> if m \<le> 0 \<or> 12 < m then None else Some (r, st\<lparr>pmonth := m\<rparr>))"
| "parseStd stdDay v st =
     (case getnum v False of
        None \<Rightarrow> None
      | Some (d, r) \<Rightarrow> Some (r, st\<lparr>pday := d\<rparr>))"
| "parseStd stdZeroDay v st =
     (case getnum v True of
        None \<Rightarrow> None
      | Some (d, r) \<Rightarrow> Some (r, st\<lparr>pday := d\<rparr>))"
| "parseStd stdHour v st =
     (case getnum v False of
        None \<Rightarrow> None
      | Some (h, r) \<Rightarrow> if h < 0 \<or> 24 \<le> h then None else Some (r, st\<lparr>phour := h\<rparr>))"
| "parseStd stdHour12 v st =
     (case getnum v False of
        None \<Rightarrow> None
      | Some (h, r) \<Rightarrow> if h < 0 \<or> 12 < h then None else Some (r, st\<lparr>phour := h\<rparr>))"
| "parseStd stdZeroMinute v st =
     (case getnum v True of
        None \<Rightarrow> None
      | Some (m, r) \<Rightarrow> if m < 0 \<or> 60 \<le> m then None else Some (r, st\<lparr>pmin := m\<rparr>))"
| "parseStd stdPM v st =
     (if length v < 2 then None
      else if take 2 v = ''PM'' then Some (drop 2 v, st\<lparr>pmSet := True\<rparr>)
      else if take 2 v = ''AM'' then Some (drop 2 v, st\<lparr>amSet := True\<rparr>)
      else None)"

lemma find_SomeD: "List.find P xs = Some x \<Longrightarrow> x \<in> set xs \<and> P x"
  by (induction xs) (auto split: if_splits)

lemma verbs_nonempty: "(w, sd) \<in> set verbs \<Longrightarrow> w \<noteq> []"
  by (auto simp: verbs_def)

lemma nextStdChunk_shorter:
  "nextStdChunk l = (p, Some sd, suf) \<Longrightarrow> length suf < length l"
proof (induction l arbitrary: p)
  case Nil
  then show ?case by simp
next
  case (Cons c cs)
  show ?case
  proof (cases "List.find (\<lambda>(w, sd). prefix w (c # cs)) verbs")
    case None
    with Cons show ?thesis
      by (cases "nextStdChunk cs") (fastforce simp del: Cons_prefix_Cons)
  next
    case (Some a)
    obtain w sd' where a: "a = (w, sd')" by (cases a)
    from Some a have "(w, sd') \<in> set verbs"
      by (auto dest: find_SomeD)
    then have "w \<noteq> []" by (rule verbs_nonempty)
    with Cons.prems Some a show ?thesis
      by (cases w) (auto simp del: Cons_prefix_Cons)
  qed
qed

text \<open>
  The loop of \<^verbatim>\<open>parse\<close>: each round skips the literal text before the next verb
  and reads the verb's value; after the last verb nothing of the text may be left.
\<close>

function parseLoop :: "string \<Rightarrow> string \<Rightarrow> pstate \<Rightarrow> pstate option" where
  "parseLoop layout v st =
     (case nextStdChunk layout of
        (pre, sd, suf) \<Rightarrow>
          (case skip v pre of
             None \<Rightarrow> None
           | Some v1 \<Rightarrow>
               (case sd of
                  None \<Rightarrow> if v1 \<noteq> [] then None else Some st
                | Some verb \<Rightarrow>
                    (case parseStd verb v1 st of
                       None \<Rightarrow> None
                     | Some (v2, st') \<Rightarrow> parseLoop suf v2 st'))))"
  by pat_completeness auto
termination
  by (relation "measure (\<lambda>(layout, v, st). length layout)")
     (auto dest: nextStdChunk_shorter [OF sym])

declare parseLoop.simps [simp del]

definition ParseInLocation :: "string \<Rightarrow> string \<Rightarrow> Location \<Rightarrow> Time option" where
  "ParseInLocation layout v l =
     (case parseLoop layout v pstate0 of
        None \<Rightarrow> None
      | Some st \<Rightarrow>
          (let h = (if pmSet st \<and> phour st < 12 then phour st + 12
                    else if amSet st \<and> phour st = 12 then 0
                    else phour st);
               m = (if pmonth st < 0 then 1 else pmonth st);
               d = (if pday st < 0 then 1 else pday st)
           in if d < 1 \<or> d > daysIn m (pyear st) then None
              else Some (Date (pyear st) m d h (pmin st) 0 0 l)))"

section \<open>Events\<close>

text \<open>
  The data of the Notion client library that an event can hold. A rich text is a list
  of runs, of which only the plain text is read. A date value has a start and, behind
  a pointer, an end. A property of a database page has a type (a string such as
  \<^verbatim>\<open>date\<close>), a name and the value fields of every type; \<open>PropOther\<close> stands for
  the value fields that the sources never read.
\<close>

record RichText =
  PlainText :: string

definition richTextToString :: "RichText list \<Rightarrow> string" where
  "richTextToString rt = concat (map PlainText rt)"

record NotionDate =
  DateStart :: Time
  DateEnd :: "Time option"

record 'v DatabasePageProperty =
  PropType :: string
  PropName :: string
  PropTitle :: "RichText list"
  PropDate :: "NotionDate option"
  PropOther :: 'v

text \<open>
  \<^verbatim>\<open>EventProperty\<close> is an interface with two implementations: a column of an
  export with its cell, and a property of a database page.
\<close>

datatype 'v EventProperty =
    exportProperty string string
  | apiProperty "'v DatabasePageProperty"

fun NameString :: "'v EventProperty \<Rightarrow> string" where
  "NameString (exportProperty n v) = n"
| "NameString (apiProperty p) = PropName p"

record 'v Event =
  ID :: string
  Title :: string
  Emoji :: string
  URL :: string
  Start :: Time
  End :: Time
  Content :: "string list"
  Properties :: "'v EventProperty list"

section \<open>SHA-256 and hexadecimal text\<close>

text \<open>
  \<^verbatim>\<open>sha256.Sum256\<close> and \<^verbatim>\<open>hex.EncodeToString\<close> of Go's library, after FIPS 180-4:
  the message is padded to whole blocks of 64 bytes, each block is expanded to 64
  words and mixed into eight words of state. The round constants are the first 32
  bits of the fractions of the cube roots of the first 64 primes, the initial state
  those of the square roots of the first 8 primes.
\<close>

type_synonym w32 = "32 word"

definition K256 :: "w32 list" where
  "K256 =
     [1116352408, 1899447441, 3049323471, 3921009573, 961987163, 1508970993,
      2453635748, 2870763221, 3624381080, 310598401, 607225278, 1426881987,
      1925078388, 2162078206, 2614888103, 3248222580, 3835390401, 4022224774,
      264347078, 604807628, 770255983, 1249150122, 1555081692, 1996064986,
      2554220882, 2821834349, 2952996808, 3210313671, 3336571891, 3584528711,
      113926993, 338241895, 666307205, 773529912, 1294757372, 1396182291, 1695183700,
      1986661051, 2177026350, 2456956037, 2730485921, 2820302411, 3259730800,
      3345764771, 3516065817, 3600352804, 4094571909, 275423344, 430227734,
      506948616, 659060556, 883997877, 958139571, 1322822218, 1537002063, 1747873779,
      1955562222, 2024104815, 2227730452, 2361852424, 2428436474, 2756734187,
      3204031479, 3329325298]"

definition H256 :: "w32 list" where
  "H256 =
     [1779033703, 3144134277, 1013904242, 2773480762, 1359893119, 2600822924,
      528734635, 1541459225]"

definition rotr :: "nat \<Rightarrow> w32 \<Rightarrow> w32" where
  "rotr n x = (drop_bit n x) OR (push_bit (32 - n) x)"

definition Ch :: "w32 \<Rightarrow> w32 \<Rightarrow> w32 \<Rightarrow> w32" where
  "Ch x y z = (x AND y) XOR (NOT x AND z)"

definition Maj :: "w32 \<Rightarrow> w32 \<Rightarrow> w32 \<Rightarrow> w32" where
  "Maj x y z = (x AND y) XOR (x AND z) XOR (y AND z)"

definition bsig0 :: "w32 \<Rightarrow> w32" where
  "bsig0 x = rotr 2 x XOR rotr 13 x XOR rotr 22 x"

definition bsig1 :: "w32 \<Rightarrow> w32" where
  "bsig1 x = rotr 6 x XOR rotr 11 x XOR rotr 25 x"

definition ssig0 :: "w32 \<Rightarrow> w32" where
  "ssig0 x = rotr 7 x XOR rotr 18 x XOR drop_bit 3 x"

definition ssig1 :: "w32 \<Rightarrow> w32" where
  "ssig1 x = rotr 17 x XOR rotr 19 x XOR drop_bit 10 x"

text \<open>Padding: a one bit, zeros, and the length in bits as eight bytes, big end first.\<close>

definition bigEndian :: "nat \<Rightarrow> nat \<Rightarrow> nat list" where
  "bigEndian k n = map (\<lambda>i. (n div 256 ^ (k - 1 - i)) mod 256) [0 ..< k]"

definition pad256 :: "nat list \<Rightarrow> nat list" where
  "pad256 bs =
     bs @ [128] @ replicate ((119 - length bs mod 64) mod 64) 0
     @ bigEndian 8 (8 * length bs)"

fun words :: "nat list \<Rightarrow> w32 list" where
  "words (a # b # c # d # bs) =
     of_nat (((a * 256 + b) * 256 + c) * 256 + d) # words bs"
| "words bs = []"

fun schedule :: "nat \<Rightarrow> w32 list \<Rightarrow> w32 list" where
  "schedule 0 w = w"
| "schedule (Suc n) w =
     (let t = length w
      in schedule n
           (w @ [ssig1 (w ! (t - 2)) + w ! (t - 7) + ssig0 (w ! (t - 15)) + w ! (t - 16)]))"

definition round256 :: "w32 list \<Rightarrow> (w32 \<times> w32) \<Rightarrow> w32 list" where
  "round256 s kw =
     (let a = s ! 0; b = s ! 1; c = s ! 2; d = s ! 3;
          e = s ! 4; f = s ! 5; g = s ! 6; h = s ! 7;
          t1 = h + bsig1 e + Ch e f g + fst kw + snd kw;
          t2 = bsig0 a + Maj a b c
      in [t1 + t2, a, b, c, d + t1, e, f, g])"

definition compress :: "w32 list \<Rightarrow> w32 list \<Rightarrow> w32 list" where
  "compress h blk = map2 (+) h (foldl round256 h (zip K256 (schedule 48 blk)))"

function chunks :: "w32 list \<Rightarrow> w32 list list" where
  "chunks ws = (if length ws < 16 then [] else take 16 ws # chunks (drop 16 ws))"
  by pat_completeness auto
termination
  by (relation "measure length") auto

declare chunks.simps [simp del]

definition Sum256 :: "string \<Rightarrow> nat list" where
  "Sum256 s =
     concat (map (\<lambda>w. bigEndian 4 (unat w))
       (foldl compress H256 (chunks (words (pad256 (map of_char s))))))"

definition EncodeToString :: "nat list \<Rightarrow> string" where
  "EncodeToString bs =
     concat (map (\<lambda>b. [''0123456789abcdef'' ! (b div 16), ''0123456789abcdef'' ! (b mod 16)]) bs)"

section \<open>Serialising a time\<close>

text \<open>
  \<^verbatim>\<open>Time.MarshalText\<close> writes RFC 3339: the date, \<^verbatim>\<open>T\<close>, the time, and \<^verbatim>\<open>Z\<close>
  or the offset in force in hours and minutes. A whole second has no fraction. It
  fails for a year outside 0..9999 and for an offset of 24 hours or more.
\<close>

datatype error =
    ErrParseDate string
  | ErrNoDateProperty
  | ErrNoTitleProperty
  | ErrCSVRead
  | ErrorString string
  | ErrNoDatePropertyIn string "string list"
  | ErrNoHidePropertyIn string "string list"
  | ErrClient string
  | ErrFetchBlock string error
  | ErrFetchChildren string string error
  | PanicNilPointer

function digitsOf :: "nat \<Rightarrow> string" where
  "digitsOf n = (if n < 10 then [] else digitsOf (n div 10)) @ [''0123456789'' ! (n mod 10)]"
  by pat_completeness auto
termination
  by (relation "measure id") auto

declare digitsOf.simps [simp del]

definition appendInt :: "int \<Rightarrow> nat \<Rightarrow> string" where
  "appendInt x width =
     (let ds = digitsOf (nat \<bar>x\<bar>)
      in (if x < 0 then ''-'' else []) @ replicate (width - length ds) CHR ''0'' @ ds)"

definition MarshalText :: "Time \<Rightarrow> error + string" where
  "MarshalText t =
     (let off = ZoneOffset t;
          zone = (if off < 0 then - ((- off) div 60) else off div 60);
          z = \<bar>zone\<bar>
      in if Year t < 0 \<or> Year t > 9999
         then Inl (ErrorString ''Time.MarshalText: year outside of range [0,9999]'')
         else if off \<noteq> 0 \<and> z div 60 \<ge> 24
         then Inl (ErrorString ''Time.MarshalText: timezone hour outside of range [0,23]'')
         else Inr (appendInt (Year t) 4 @ ''-'' @ appendInt (Month t) 2 @ ''-''
                   @ appendInt (Day t) 2 @ ''T'' @ appendInt (Hour t) 2 @ '':''
                   @ appendInt (Minute t) 2 @ '':'' @ appendInt (Second t) 2
                   @ (if off = 0 then ''Z''
                      else (if zone < 0 then ''-'' else ''+'')
                           @ appendInt (z div 60) 2 @ '':'' @ appendInt (z mod 60) 2)))"

section \<open>The date-range parser\<close>

definition notionTimeFormats :: "string list" where
  "notionTimeFormats = [''15:04'', ''3:00 PM'']"

definition notionDateFormats :: "string list" where
  "notionDateFormats = [''January 2, 2006'', ''2006/01/02'']"

text \<open>The first layout of a list that parses the text decides.\<close>

fun firstParse :: "string list \<Rightarrow> string \<Rightarrow> Location \<Rightarrow> Time option" where
  "firstParse [] d zone = None"
| "firstParse (f # fs) d zone =
     (case ParseInLocation f d zone of
        Some t \<Rightarrow> Some t
      | None \<Rightarrow> firstParse fs d zone)"

definition parseNotionDate :: "string \<Rightarrow> Location \<Rightarrow> error + Time" where
  "parseNotionDate d0 zone =
     (let d = TrimSpace d0
      in case firstParse
                (concat (map (\<lambda>fd. map (\<lambda>ft. fd @ '' '' @ ft) notionTimeFormats)
                   notionDateFormats)) d zone of
           Some t \<Rightarrow> Inr t
         | None \<Rightarrow> Inl (ErrParseDate d))"

definition parseNotionTime :: "string \<Rightarrow> Location \<Rightarrow> error + Time" where
  "parseNotionTime d0 zone =
     (let d = TrimSpace d0
      in case firstParse notionTimeFormats d zone of
           Some t \<Rightarrow> Inr t
         | None \<Rightarrow> Inl (ErrParseDate d))"

definition mergeNotionDateTime :: "Time \<Rightarrow> Time \<Rightarrow> Time" where
  "mergeNotionDateTime date t =
     Date (Year date) (Month date) (Day date) (Hour t) (Minute t) (Second t) 0 (Location t)"

definition parseNotionDateRange :: "string \<Rightarrow> Location \<Rightarrow> error + Time \<times> Time" where
  "parseNotionDateRange r zone =
     (let parts = SplitN2 r arrow
      in case parseNotionDate (parts ! 0) zone of
           Inl err \<Rightarrow> Inl err
         | Inr t1 \<Rightarrow>
             if length parts = 2 then
               (case parseNotionDate (parts ! 1) zone of
                  Inr t2 \<Rightarrow> Inr (t1, t2)
                | Inl _ \<Rightarrow>
                    (case parseNotionTime (parts ! 1) zone of
                       Inl err \<Rightarrow> Inl err
                     | Inr t2 \<Rightarrow> Inr (t1, mergeNotionDateTime t1 t2)))
             else Inr (t1, t1))"

section \<open>The snapshot source\<close>

subsection \<open>Archives and tables\<close>

text \<open>
  What the snapshot source sees of its archive. Seeking to the end may fail, the
  bytes may be no ZIP file, and otherwise the archive lists its files in order. A
  file may fail to open; once open, the CSV reader yields one result per call: a
  record, or a failure; the end of the list is the end of the data.
\<close>

datatype csvRead = Record "string list" | ReadFailure

record zipEntry =
  EntryName :: string
  EntryOpens :: bool
  EntryReads :: "csvRead list"

datatype Archive = SeekFails | NotZip | Zip "zipEntry list"

record ConfigSourceExport =
  Archive :: Archive
  Zone :: Location
  ExportDateProperty :: string
  ExportHideProperty :: string

record SourceExport =
  exportConfig :: ConfigSourceExport
  exportArchive :: "zipEntry list"
  exportName :: string

text \<open>The loop that looks for the CSV file: every file with the suffix sets the name.\<close>

fun findCSV :: "string \<Rightarrow> zipEntry list \<Rightarrow> string" where
  "findCSV name [] = name"
| "findCSV name (file # files) =
     (if HasSuffix (EntryName file) ''.csv'' then findCSV (EntryName file) files
      else findCSV name files)"

definition NewSourceExport :: "ConfigSourceExport \<Rightarrow> error + SourceExport" where
  "NewSourceExport cfg =
     (case Archive cfg of
        SeekFails \<Rightarrow> Inl (ErrorString ''unable to obtain file size'')
      | NotZip \<Rightarrow> Inl (ErrorString ''unable to open ZIP file'')
      | Zip files \<Rightarrow>
          (let name = findCSV [] files
           in if name = [] then Inl (ErrorString ''cannot find CSV file in ZIP file'')
              else Inr \<lparr>exportConfig = cfg, exportArchive = files, exportName = name\<rparr>))"

subsection \<open>Columns\<close>

text \<open>
  \<^verbatim>\<open>strings.ToLower\<close>. A string of ASCII bytes has its capital letters replaced.
  Any other string is mapped rune by rune through the Unicode tables, which are not
  part of this model: the parameter \<open>u\<close> stands for that mapping.
\<close>

definition lowerASCII :: "char \<Rightarrow> char" where
  "lowerASCII c = (if CHR ''A'' \<le> c \<and> c \<le> CHR ''Z'' then char_of (of_char c + (32 :: nat)) else c)"

definition ToLower :: "(string \<Rightarrow> string) \<Rightarrow> string \<Rightarrow> string" where
  "ToLower u s = (if list_all (\<lambda>c. c < CHR 0x80) s then map lowerASCII s else u s)"

definition headersAndRecordToMap :: "string list \<Rightarrow> string list \<Rightarrow> error + (string \<rightharpoonup> string)" where
  "headersAndRecordToMap headers record =
     (if length headers \<noteq> length record then Inl ErrCSVRead
      else Inr (fold (\<lambda>(key, v) m. m(key \<mapsto> v)) (zip headers record) Map.empty))"

text \<open>
  A \<^verbatim>\<open>range\<close> over a Go map visits the keys in an order the language leaves open,
  and anew for each loop. The model takes the order of each loop as a list of keys,
  \<open>ks\<close>; it is an order of the map \<open>m\<close> when it lists each key of \<open>m\<close> once.
\<close>

definition rangeOf :: "(string \<rightharpoonup> string) \<Rightarrow> string list \<Rightarrow> bool" where
  "rangeOf m ks = (distinct ks \<and> set ks = dom m)"

text \<open>
  The two loops of \<^verbatim>\<open>findFirstColumn\<close>: the first key, in the order of the loop,
  whose lower-case form equals, or in the second loop contains, the lower-case form
  of one of the names.
\<close>

fun firstEqual :: "(string \<Rightarrow> string) \<Rightarrow> string list \<Rightarrow> (string \<rightharpoonup> string) \<Rightarrow> string list
    \<Rightarrow> (string \<times> string) option" where
  "firstEqual u names m [] = None"
| "firstEqual u names m (key # ks) =
     (case m key of
        None \<Rightarrow> firstEqual u names m ks
      | Some v \<Rightarrow>
          if list_ex (\<lambda>q. ToLower u key = ToLower u q) names then Some (key, v)
          else firstEqual u names m ks)"

fun firstContains :: "(string \<Rightarrow> string) \<Rightarrow> string list \<Rightarrow> (string \<rightharpoonup> string) \<Rightarrow> string list
    \<Rightarrow> (string \<times> string) option" where
  "firstContains u names m [] = None"
| "firstContains u names m (key # ks) =
     (case m key of
        None \<Rightarrow> firstContains u names m ks
      | Some v \<Rightarrow>
          if list_ex (\<lambda>q. Contains (ToLower u key) (ToLower u q)) names then Some (key, v)
          else firstContains u names m ks)"

definition findFirstColumn ::
    "(string \<Rightarrow> string) \<Rightarrow> string list \<Rightarrow> (string \<rightharpoonup> string) \<Rightarrow> string list \<times> string list
      \<Rightarrow> string \<times> string" where
  "findFirstColumn u names m order =
     (case firstEqual u names m (fst order) of
        Some kv \<Rightarrow> kv
      | None \<Rightarrow>
          (case firstContains u names m (snd order) of
             Some kv \<Rightarrow> kv
           | None \<Rightarrow> ([], [])))"

subsection \<open>One row\<close>

text \<open>
  The orders of the four loops over the map of one row: two for the date column and
  two for the title column.
\<close>

record rowOrder =
  dateOrder :: "string list \<times> string list"
  titleOrder :: "string list \<times> string list"

text \<open>The date column and its cell: found among the synonyms, or the configured one.\<close>

definition dateColumn ::
    "(string \<Rightarrow> string) \<Rightarrow> SourceExport \<Rightarrow> rowOrder \<Rightarrow> (string \<rightharpoonup> string)
      \<Rightarrow> error + string \<times> string" where
  "dateColumn u s ord m =
     (if ExportDateProperty (exportConfig s) = [] then
        (case findFirstColumn u [''date'', ''when'', ''period''] m (dateOrder ord) of
           (dateKey, date) \<Rightarrow> if dateKey = [] then Inl ErrNoDateProperty else Inr (dateKey, date))
      else
        (case m (ExportDateProperty (exportConfig s)) of
           None \<Rightarrow> Inl ErrNoDateProperty
         | Some date \<Rightarrow> Inr (ExportDateProperty (exportConfig s), date)))"

definition titleColumn ::
    "(string \<Rightarrow> string) \<Rightarrow> rowOrder \<Rightarrow> (string \<rightharpoonup> string) \<Rightarrow> error + string \<times> string" where
  "titleColumn u ord m =
     (case findFirstColumn u [''name'', ''title''] m (titleOrder ord) of
        (titleKey, title) \<Rightarrow>
          if titleKey = [] then Inl ErrNoTitleProperty else Inr (titleKey, title))"

text \<open>The properties: every column but the date and the title column, in column order.\<close>

fun propertiesOf :: "string \<Rightarrow> string \<Rightarrow> string list \<Rightarrow> string list \<Rightarrow> 'v EventProperty list" where
  "propertiesOf dateKey titleKey (key # headers) (v # record) =
     (if key = dateKey \<or> key = titleKey then propertiesOf dateKey titleKey headers record
      else exportProperty key v # propertiesOf dateKey titleKey headers record)"
| "propertiesOf dateKey titleKey headers record = []"

definition eventID :: "string \<Rightarrow> string \<Rightarrow> string" where
  "eventID title dateBytes =
     EncodeToString (Sum256 (title @ dateBytes)) @ ''@notion-ical-export''"

definition eventFromCSVRow ::
    "(string \<Rightarrow> string) \<Rightarrow> SourceExport \<Rightarrow> rowOrder \<Rightarrow> string list \<Rightarrow> string list
      \<Rightarrow> error + 'v Event" where
  "eventFromCSVRow u s ord headers record =
     (case headersAndRecordToMap headers record of
        Inl err \<Rightarrow> Inl err
      | Inr m \<Rightarrow>
          (case dateColumn u s ord m of
             Inl err \<Rightarrow> Inl err
           | Inr (dateKey, date) \<Rightarrow>
               (case parseNotionDateRange date (Zone (exportConfig s)) of
                  Inl err \<Rightarrow> Inl err
                | Inr (start, end) \<Rightarrow>
                    (case titleColumn u ord m of
                       Inl err \<Rightarrow> Inl err
                     | Inr (titleKey, title) \<Rightarrow>
                         (case MarshalText start of
                            Inl err \<Rightarrow> Inl err
                          | Inr dateBytes \<Rightarrow>
                              Inr \<lparr>ID = eventID title dateBytes, Title = title, Emoji = [],
                                   URL = [], Start = start, End = end, Content = [],
                                   Properties =
                                     propertiesOf dateKey titleKey headers record\<rparr>)))))"

subsection \<open>All rows\<close>

text \<open>
  The loop of \<^verbatim>\<open>ReadAll\<close> over the reads that follow the header row; \<open>ords\<close>
  gives the loop orders of the row with a given number.
\<close>

fun readRows ::
    "(string \<Rightarrow> string) \<Rightarrow> SourceExport \<Rightarrow> (nat \<Rightarrow> rowOrder) \<Rightarrow> string list \<Rightarrow> nat
      \<Rightarrow> csvRead list \<Rightarrow> 'v Event list \<Rightarrow> error + 'v Event list" where
  "readRows u s ords headers i [] events = Inr events"
| "readRows u s ords headers i (ReadFailure # reads) events = Inl ErrCSVRead"
| "readRows u s ords headers i (Record record # reads) events =
     (case eventFromCSVRow u s (ords i) headers record of
        Inl err \<Rightarrow> Inl err
      | Inr event \<Rightarrow> readRows u s ords headers (Suc i) reads (events @ [event]))"

definition ReadAll ::
    "(string \<Rightarrow> string) \<Rightarrow> (nat \<Rightarrow> rowOrder) \<Rightarrow> SourceExport \<Rightarrow> error + 'v Event list" where
  "ReadAll u ords s =
     (case List.find (\<lambda>f. EntryName f = exportName s) (exportArchive s) of
        None \<Rightarrow> Inl ErrCSVRead
      | Some f \<Rightarrow>
          if \<not> EntryOpens f then Inl ErrCSVRead
          else (case EntryReads f of
                  Record headers # reads \<Rightarrow> readRows u s ords headers 0 reads []
                | _ \<Rightarrow> Inl ErrCSVRead))"

section \<open>The live source\<close>

subsection \<open>Blocks\<close>

text \<open>
  The blocks of the client library. Every block has an id and says whether it has
  children; its body is one of the block types. The library's decoder hands out
  pointers to blocks, which is what \<^verbatim>\<open>convertBlockContentPlain\<close> switches on;
  \<open>ChildPageBlock\<close> is such a pointer to a child page. \<open>ChildPageValue\<close> is a child
  page held by value, the type that the switch of \<^verbatim>\<open>getPageContentPlain\<close> names. A
  file is an upload or an external link with its URL (the type tag and the pointer
  that is set agree), or neither.
\<close>

datatype FileRef = FileFile string | FileExternal string | FileNeither

datatype LinkToPageType = LinkToPageTypePageID | LinkToPageTypeDatabaseID | LinkToPageTypeOther

datatype Block = Block (BlockID: string) (BlockHasChildren: bool) (BlockBody: BlockBody)
and BlockBody =
    ParagraphBlock "RichText list"
  | Heading1Block "RichText list"
  | Heading2Block "RichText list"
  | Heading3Block "RichText list"
  | BulletedListItemBlock "RichText list"
  | NumberedListItemBlock "RichText list"
  | ToDoBlock "RichText list" "bool option"
  | ToggleBlock "RichText list"
  | CalloutBlock "RichText list"
  | QuoteBlock "RichText list"
  | CodeBlock "RichText list"
  | EmbedBlock string
  | ImageBlock FileRef
  | AudioBlock FileRef
  | VideoBlock FileRef
  | FileBlock FileRef
  | PDFBlock FileRef
  | BookmarkBlock string
  | EquationBlock string
  | DividerBlock
  | TableOfContentsBlock
  | BreadcrumbBlock
  | ColumnListBlock
  | ColumnBlock
  | TableBlock "Block list"
  | TableRowBlock "RichText list list"
  | LinkPreviewBlock string
  | LinkToPageBlock LinkToPageType string string
  | SyncedBlock "Block list"
  | TemplateBlock "RichText list"
  | ChildPageBlock string
  | ChildPageValue string
  | ChildDatabaseBlock string
  | UnsupportedBlock

text \<open>\<^verbatim>\<open>strings.Join\<close>.\<close>

fun Join :: "string list \<Rightarrow> string \<Rightarrow> string" where
  "Join [] sep = []"
| "Join [x] sep = x"
| "Join (x # y # xs) sep = x @ sep @ Join (y # xs) sep"

definition fileToString :: "FileRef \<Rightarrow> string" where
  "fileToString f = (case f of FileFile url \<Rightarrow> url | FileExternal url \<Rightarrow> url | FileNeither \<Rightarrow> [])"

fun convertBlockContentPlain :: "Block \<Rightarrow> string"
  and convertBody :: "BlockBody \<Rightarrow> string" where
  "convertBlockContentPlain (Block i h body) = convertBody body"
| "convertBody (ParagraphBlock rt) = richTextToString rt"
| "convertBody (Heading1Block rt) = ''# '' @ richTextToString rt"
| "convertBody (Heading2Block rt) = ''## '' @ richTextToString rt"
| "convertBody (Heading3Block rt) = ''### '' @ richTextToString rt"
| "convertBody (BulletedListItemBlock rt) = ''- '' @ richTextToString rt"
| "convertBody (NumberedListItemBlock rt) = ''* '' @ richTextToString rt"
| "convertBody (ToDoBlock rt checked) =
     (if checked = Some True then ''[x] '' else ''[ ] '') @ richTextToString rt"
| "convertBody (ToggleBlock rt) = ''^ '' @ richTextToString rt"
| "convertBody (CalloutBlock rt) = ''! '' @ richTextToString rt"
| "convertBody (QuoteBlock rt) = ''> '' @ richTextToString rt"
| "convertBody (CodeBlock rt) =
     ''```'' @ [CHR 0x0A] @ richTextToString rt @ [CHR 0x0A] @ ''```''"
| "convertBody (EmbedBlock url) = ''Embed: '' @ url"
| "convertBody (ImageBlock f) = ''Image: '' @ fileToString f"
| "convertBody (AudioBlock f) = ''Audio: '' @ fileToString f"
| "convertBody (VideoBlock f) = ''Video: '' @ fileToString f"
| "convertBody (FileBlock f) = ''File: '' @ fileToString f"
| "convertBody (PDFBlock f) = ''PDF: '' @ fileToString f"
| "convertBody (BookmarkBlock url) = ''Bookmark: '' @ url"
| "convertBody (EquationBlock expression) = ''Expression: '' @ expression"
| "convertBody DividerBlock = ''--------------------------''"
| "convertBody TableOfContentsBlock = []"
| "convertBody BreadcrumbBlock = []"
| "convertBody ColumnListBlock = []"
| "convertBody ColumnBlock = []"
| "convertBody (TableBlock children) = Join (map convertBlockContentPlain children) [CHR 0x0A]"
| "convertBody (TableRowBlock cells) = Join (map richTextToString cells) '', ''"
| "convertBody (LinkPreviewBlock url) = ''Preview: '' @ url"
| "convertBody (LinkToPageBlock ty pageID databaseID) =
     (case ty of
        LinkToPageTypePageID \<Rightarrow> ''Link: '' @ pageID
      | LinkToPageTypeDatabaseID \<Rightarrow> ''Link: '' @ databaseID
      | LinkToPageTypeOther \<Rightarrow> [])"
| "convertBody (SyncedBlock children) =
     Join (map convertBlockContentPlain children) [CHR 0x0A, CHR 0x0A]"
| "convertBody (TemplateBlock rt) = ''Template: '' @ richTextToString rt"
| "convertBody (ChildPageBlock title) = []"
| "convertBody (ChildPageValue title) = []"
| "convertBody (ChildDatabaseBlock title) = []"
| "convertBody UnsupportedBlock = []"

subsection \<open>The client\<close>

text \<open>
  The remote service as the source sees it through the client: each call fails or
  answers, and the service answers one question the same way throughout. A schema is
  the database's map from field names to field types, and the properties of a page
  are a map from names to values; each is given as the list of its entries in the
  order in which the one loop over it visits them.
\<close>

record Database =
  DatabaseTitle :: "RichText list"
  DatabaseProperties :: "(string \<times> string) list"

record 'v Page =
  PageID :: string
  PageURL :: string
  PageIcon :: "string option option"
  PageProperties :: "(string \<times> 'v DatabasePageProperty) list"

record PaginationQuery =
  StartCursor :: string
  PageSize :: nat

record BlockChildrenResponse =
  Results :: "Block list"
  HasMore :: bool
  NextCursor :: "string option"

record Client =
  FindDatabaseByID :: "string \<Rightarrow> error + Database"
  FindBlockByID :: "string \<Rightarrow> error + Block"
  FindBlockChildrenByID :: "string \<Rightarrow> PaginationQuery \<Rightarrow> error + BlockChildrenResponse"

record ConfigSourceAPI =
  APIKey :: string
  DatabaseID :: string
  DateProperty :: string
  HideProperty :: string

record SourceAPI =
  apiConfig :: ConfigSourceAPI
  apiClient :: Client
  apiDatabase :: Database

subsection \<open>Construction\<close>

text \<open>
  The loop over the schema counts the date fields and the checkbox fields that match
  the configuration and collects every field name.
\<close>

fun countMatches :: "ConfigSourceAPI \<Rightarrow> (string \<times> string) list \<Rightarrow> nat \<times> nat \<times> string list
    \<Rightarrow> nat \<times> nat \<times> string list" where
  "countMatches cfg [] acc = acc"
| "countMatches cfg ((name, ty) # properties) (d, h, names) =
     countMatches cfg properties
       (if ty = ''date'' \<and> (DateProperty cfg = [] \<or> name = DateProperty cfg) then d + 1 else d,
        if ty = ''checkbox'' \<and> HideProperty cfg \<noteq> [] \<and> name = HideProperty cfg then h + 1
        else h,
        names @ [name])"

definition NewSourceAPI :: "Client \<Rightarrow> ConfigSourceAPI \<Rightarrow> error + SourceAPI" where
  "NewSourceAPI client cfg =
     (case FindDatabaseByID client (DatabaseID cfg) of
        Inl err \<Rightarrow> Inl err
      | Inr database \<Rightarrow>
          (case countMatches cfg (DatabaseProperties database) (0, 0, []) of
             (datePropertyMatches, hidePropertyMatches, propertyNames) \<Rightarrow>
               if datePropertyMatches \<noteq> 1
               then Inl (ErrNoDatePropertyIn (DateProperty cfg) propertyNames)
               else if HideProperty cfg \<noteq> [] \<and> hidePropertyMatches \<noteq> 1
               then Inl (ErrNoHidePropertyIn (DateProperty cfg) propertyNames)
               else Inr \<lparr>apiConfig = cfg, apiClient = client, apiDatabase = database\<rparr>))"

subsection \<open>The content of a page\<close>

text \<open>
  A result that may need more steps than allowed: \<open>None\<close> when the allowance ran
  out, otherwise the error or the value. \<open>andThen\<close> passes a value on and stops at the
  first error.
\<close>

definition andThen :: "(error + 'a) option \<Rightarrow> ('a \<Rightarrow> (error + 'b) option) \<Rightarrow> (error + 'b) option" where
  "andThen r f = (case r of None \<Rightarrow> None | Some (Inl err) \<Rightarrow> Some (Inl err) | Some (Inr x) \<Rightarrow> f x)"

definition firstQuery :: PaginationQuery where
  "firstQuery = \<lparr>StartCursor = [], PageSize = 100\<rparr>"

text \<open>
  \<^verbatim>\<open>getBlockChildrenContentPlain\<close>: \<open>pagesFrom\<close> is its loop over the pages of
  children, from a query on, and \<open>blocksContent\<close> the loop over the blocks of one page,
  which descends into a block with children right after the block's own line. The
  first argument bounds the number of nested calls: the service may list pages or
  children without end.
\<close>

fun pagesFrom :: "nat \<Rightarrow> Client \<Rightarrow> string \<Rightarrow> PaginationQuery \<Rightarrow> (error + string list) option"
  and blocksContent :: "nat \<Rightarrow> Client \<Rightarrow> Block list \<Rightarrow> (error + string list) option" where
  "pagesFrom 0 client bid query = None"
| "pagesFrom (Suc n) client bid query =
     (case FindBlockChildrenByID client bid query of
        Inl err \<Rightarrow> Some (Inl (ErrFetchChildren bid (StartCursor query) err))
      | Inr response \<Rightarrow>
          andThen (blocksContent n client (Results response)) (\<lambda>content.
            if \<not> HasMore response then Some (Inr content)
            else (case NextCursor response of
                    None \<Rightarrow> Some (Inl PanicNilPointer)
                  | Some cursor \<Rightarrow>
                      andThen (pagesFrom n client bid (query\<lparr>StartCursor := cursor\<rparr>))
                        (\<lambda>more. Some (Inr (content @ more))))))"
| "blocksContent 0 client blocks = None"
| "blocksContent (Suc n) client [] = Some (Inr [])"
| "blocksContent (Suc n) client (block # blocks) =
     andThen (if BlockHasChildren block then pagesFrom n client (BlockID block) firstQuery
              else Some (Inr []))
       (\<lambda>childrenContent.
          andThen (blocksContent n client blocks)
            (\<lambda>content. Some (Inr (convertBlockContentPlain block # childrenContent @ content))))"

definition getBlockChildrenContentPlain :: "nat \<Rightarrow> Client \<Rightarrow> string \<Rightarrow> (error + string list) option" where
  "getBlockChildrenContentPlain n client bid = pagesFrom n client bid firstQuery"

definition ownLine :: "Block \<Rightarrow> string list" where
  "ownLine block =
     (case BlockBody block of
        ChildPageValue title \<Rightarrow> []
      | _ \<Rightarrow> [convertBlockContentPlain block])"

definition getPageContentPlain :: "nat \<Rightarrow> Client \<Rightarrow> string \<Rightarrow> (error + string list) option" where
  "getPageContentPlain n client bid =
     (case FindBlockByID client bid of
        Inl err \<Rightarrow> Some (Inl (ErrFetchBlock bid err))
      | Inr block \<Rightarrow>
          if BlockHasChildren block
          then andThen (getBlockChildrenContentPlain n client bid)
                 (\<lambda>childrenContent. Some (Inr (ownLine block @ childrenContent)))
          else Some (Inr (ownLine block)))"

subsection \<open>One page\<close>

definition DBPropTypeTitle :: string where
  "DBPropTypeTitle = ''title''"

definition DBPropTypeDate :: string where
  "DBPropTypeDate = ''date''"

definition DBPropTypeRelation :: string where
  "DBPropTypeRelation = ''relation''"

text \<open>The zero value of \<^verbatim>\<open>time.Time\<close>: the first instant of the year 1, in UTC.\<close>

definition zeroTime :: Time where
  "zeroTime = \<lparr>Year = 1, Month = 1, Day = 1, Hour = 0, Minute = 0, Second = 0,
               Nanosecond = 0, ZoneOffset = 0, Location = UTC\<rparr>"

text \<open>
  The loop over the properties of a page. A title sets the title, the date field
  sets start and end, a relation is passed over, and everything else is appended,
  under the name of its key when it has no name of its own. The date value and its
  end are behind pointers that the loop follows unchecked: where one is nil the
  program stops with a panic.
\<close>

fun pageLoop :: "ConfigSourceAPI \<Rightarrow> (string \<times> 'v DatabasePageProperty) list
    \<Rightarrow> string \<times> Time \<times> Time \<times> 'v EventProperty list
    \<Rightarrow> error + string \<times> Time \<times> Time \<times> 'v EventProperty list" where
  "pageLoop cfg [] st = Inr st"
| "pageLoop cfg ((name, property) # properties) (title, start, end, propertiesList) =
     (if PropType property = DBPropTypeTitle
      then pageLoop cfg properties (richTextToString (PropTitle property), start, end, propertiesList)
      else if PropType property = DBPropTypeDate
              \<and> (DateProperty cfg = [] \<or> name = DateProperty cfg)
      then (case PropDate property of
              None \<Rightarrow> Inl PanicNilPointer
            | Some date \<Rightarrow>
                (case DateEnd date of
                   None \<Rightarrow> Inl PanicNilPointer
                 | Some e \<Rightarrow> pageLoop cfg properties (title, DateStart date, e, propertiesList)))
      else if PropType property = DBPropTypeRelation
      then pageLoop cfg properties (title, start, end, propertiesList)
      else pageLoop cfg properties
             (title, start, end,
              propertiesList
              @ [apiProperty (if PropName property = [] then property\<lparr>PropName := name\<rparr>
                              else property)]))"

text \<open>
  \<^verbatim>\<open>sort.Slice\<close> with the order of the names as bytes. The model sorts by
  insertion, each element going behind those that are not greater, as Go does for
  short slices; for long slices Go leaves the order among equal names open.
\<close>

fun insertByName :: "'v EventProperty \<Rightarrow> 'v EventProperty list \<Rightarrow> 'v EventProperty list" where
  "insertByName p [] = [p]"
| "insertByName p (q # qs) =
     (if NameString p < NameString q then p # q # qs else q # insertByName p qs)"

definition sortByName :: "'v EventProperty list \<Rightarrow> 'v EventProperty list" where
  "sortByName ps = foldl (\<lambda>sorted p. insertByName p sorted) [] ps"

definition eventFromPage :: "nat \<Rightarrow> SourceAPI \<Rightarrow> 'v Page \<Rightarrow> (error + 'v Event) option" where
  "eventFromPage n s page =
     (case pageLoop (apiConfig s) (PageProperties page) ([], zeroTime, zeroTime, []) of
        Inl err \<Rightarrow> Some (Inl err)
      | Inr (title, start, end, propertiesList) \<Rightarrow>
          andThen (getPageContentPlain n (apiClient s) (PageID page))
            (\<lambda>content.
               Some (Inr \<lparr>ID = PageID page @ ''@notion-ical'', Title = title,
                          Emoji = (case PageIcon page of Some (Some emoji) \<Rightarrow> emoji | _ \<Rightarrow> []),
                          URL = PageURL page, Start = start, End = end, Content = content,
                          Properties = sortByName propertiesList\<rparr>)))"

section \<open>Predicates used in the statements\<close>

text \<open>A time whose calendar fields are all inside their ranges.\<close>

definition validTime :: "Time \<Rightarrow> bool" where
  "validTime t =
     (1 \<le> Month t \<and> Month t \<le> 12 \<and> 1 \<le> Day t \<and> Day t \<le> daysIn (Month t) (Year t)
      \<and> 0 \<le> Hour t \<and> Hour t < 24 \<and> 0 \<le> Minute t \<and> Minute t < 60
      \<and> 0 \<le> Second t \<and> Second t < 60 \<and> 0 \<le> Nanosecond t \<and> Nanosecond t < 1000000000)"


text \<open>
  A calendar reading, as seconds on the zone's clock, that \<^verbatim>\<open>time.Date\<close> keeps: the
  offset it takes off is the one in force at the instant it returns. Every reading
  in a zone without transitions is kept; a reading that a transition skips is not.
\<close>

definition keepsReading :: "Location \<Rightarrow> int \<Rightarrow> bool" where
  "keepsReading l unix = (offsetAt l (unix - dateOffset l unix) = dateOffset l unix)"

text \<open>What the parser's running state satisfies after every verb.\<close>

definition pinv :: "pstate \<Rightarrow> bool" where
  "pinv st = ((pmonth st = - 1 \<or> (1 \<le> pmonth st \<and> pmonth st \<le> 12))
      \<and> 0 \<le> phour st \<and> phour st < 24 \<and> 0 \<le> pmin st \<and> pmin st < 60)"



text \<open>
  A key matches a list of names exactly when its lower-case form is the lower-case
  form of one of them, and partly when it contains one. \<open>firstOf P m ks\<close> is the first
  key of the order \<open>ks\<close> with the property \<open>P\<close>, with its cell.
\<close>

definition matchesExactly :: "(string \<Rightarrow> string) \<Rightarrow> string list \<Rightarrow> string \<Rightarrow> bool" where
  "matchesExactly u names key = list_ex (\<lambda>q. ToLower u key = ToLower u q) names"

definition matchesPartly :: "(string \<Rightarrow> string) \<Rightarrow> string list \<Rightarrow> string \<Rightarrow> bool" where
  "matchesPartly u names key = list_ex (\<lambda>q. Contains (ToLower u key) (ToLower u q)) names"

definition firstOf :: "(string \<Rightarrow> bool) \<Rightarrow> (string \<rightharpoonup> string) \<Rightarrow> string list \<Rightarrow> (string \<times> string) option" where
  "firstOf P m ks = (case filter P ks of [] \<Rightarrow> None | k # _ \<Rightarrow> Some (k, the (m k)))"

text \<open>
  What resolving a column over a list of names may yield on a row. A column \<open>(k, v)\<close>
  of the row is a resolution when \<open>k\<close> matches one of the names exactly, or when no
  key of the row matches exactly and \<open>k\<close> contains one of the names; no column is the
  resolution when no key of the row matches either way. Which of several matching
  keys is taken is not part of it.
\<close>

definition resolved ::
    "(string \<Rightarrow> string) \<Rightarrow> string list \<Rightarrow> (string \<rightharpoonup> string) \<Rightarrow> (string \<times> string) option
      \<Rightarrow> bool" where
  "resolved u names m r =
     (case r of
        Some (k, v) \<Rightarrow>
          m k = Some v
          \<and> (if \<exists>k'. k' \<in> dom m \<and> matchesExactly u names k' then matchesExactly u names k
             else matchesPartly u names k)
      | None \<Rightarrow> (\<forall>k. k \<in> dom m \<longrightarrow> \<not> matchesExactly u names k \<and> \<not> matchesPartly u names k))"

text \<open>The fields of a schema that count as the date field, and as the hide field.\<close>

definition dateMatches :: "ConfigSourceAPI \<Rightarrow> (string \<times> string) list \<Rightarrow> (string \<times> string) list" where
  "dateMatches cfg schema =
     filter (\<lambda>(name, ty). ty = ''date'' \<and> (DateProperty cfg = [] \<or> name = DateProperty cfg)) schema"

definition hideMatches :: "ConfigSourceAPI \<Rightarrow> (string \<times> string) list \<Rightarrow> (string \<times> string) list" where
  "hideMatches cfg schema =
     filter (\<lambda>(name, ty). ty = ''checkbox'' \<and> HideProperty cfg \<noteq> [] \<and> name = HideProperty cfg) schema"

text \<open>
  A tree of blocks, and its lines in pre-order: the line of the root, then the lines
  of the subtrees of its children, in their order.
\<close>

datatype tree = Node (root: Block) (children: "tree list")

fun preorder :: "tree \<Rightarrow> string list" where
  "preorder (Node b ts) = convertBlockContentPlain b # concat (map preorder ts)"

text \<open>A block of the child-page type.\<close>

definition isChildPage :: "Block \<Rightarrow> bool" where
  "isChildPage block =
     (case BlockBody block of
        ChildPageBlock title \<Rightarrow> True
      | ChildPageValue title \<Rightarrow> True
      | _ \<Rightarrow> False)"

text \<open>
  What the service lists below a block: \<open>pagesOf client bid query blocks\<close> holds when
  the pages of children of \<open>bid\<close>, from \<open>query\<close> on and each continued at the cursor
  the service names, end after finitely many and list \<open>blocks\<close>;
  \<open>subtree client block t\<close> holds when \<open>t\<close> is the tree the service lists below
  \<open>block\<close>.
\<close>

inductive pagesOf :: "Client \<Rightarrow> string \<Rightarrow> PaginationQuery \<Rightarrow> Block list \<Rightarrow> bool"
  for client :: Client and bid :: string where
  lastPage:
    "FindBlockChildrenByID client bid query = Inr response \<Longrightarrow> \<not> HasMore response
      \<Longrightarrow> pagesOf client bid query (Results response)"
| nextPage:
    "FindBlockChildrenByID client bid query = Inr response \<Longrightarrow> HasMore response
      \<Longrightarrow> NextCursor response = Some cursor
      \<Longrightarrow> pagesOf client bid (query\<lparr>StartCursor := cursor\<rparr>) blocks
      \<Longrightarrow> pagesOf client bid query (Results response @ blocks)"

inductive subtree :: "Client \<Rightarrow> Block \<Rightarrow> tree \<Rightarrow> bool" for client :: Client where
  leaf: "\<not> BlockHasChildren block \<Longrightarrow> subtree client block (Node block [])"
| inner:
    "BlockHasChildren block \<Longrightarrow> pagesOf client (BlockID block) firstQuery blocks
      \<Longrightarrow> list_all2 (subtree client) blocks ts
      \<Longrightarrow> subtree client block (Node block ts)"

text \<open>
  The content below one block of a page of children, as \<open>blocksContent\<close> asks for it,
  and a block with a tree whose lines below the root that content is, given enough
  steps.
\<close>

definition kids :: "nat \<Rightarrow> Client \<Rightarrow> Block \<Rightarrow> (error + string list) option" where
  "kids n client block =
     (if BlockHasChildren block then pagesFrom n client (BlockID block) firstQuery
      else Some (Inr []))"

definition served :: "Client \<Rightarrow> Block \<Rightarrow> tree \<Rightarrow> bool" where
  "served client block t =
     (root t = block
      \<and> (\<exists>n. \<forall>k\<ge>n. kids k client block = Some (Inr (concat (map preorder (children t))))))"

text \<open>
  The fields of a page that become properties of its event, and the property of a
  field under its display name.
\<close>

definition kept :: "ConfigSourceAPI \<Rightarrow> string \<times> 'v DatabasePageProperty \<Rightarrow> bool" where
  "kept cfg = (\<lambda>(name, property).
     PropType property \<noteq> DBPropTypeTitle
     \<and> \<not> (PropType property = DBPropTypeDate
            \<and> (DateProperty cfg = [] \<or> name = DateProperty cfg))
     \<and> PropType property \<noteq> DBPropTypeRelation)"

definition named :: "string \<times> 'v DatabasePageProperty \<Rightarrow> 'v EventProperty" where
  "named = (\<lambda>(name, property).
     apiProperty (if PropName property = [] then property\<lparr>PropName := name\<rparr> else property))"


section \<open>Example inputs\<close>

text \<open>
  A zone with the two transitions that \<^verbatim>\<open>America/New_York\<close> has in 2023: on March 12
  at 07:00 UTC its clocks go from 02:00 to 03:00, five hours behind UTC before and
  four after, and on November 5 at 06:00 UTC they go back from 02:00 to 01:00.
\<close>

definition newYork :: Location where
  "newYork = \<lparr>zoneName = ''America/New_York'', firstOffset = - 18000,
               transitions = [(1678604400, - 14400), (1699164000, - 18000)]\<rparr>"

text \<open>
  A source over an empty archive with a given date and hide property, the loop orders
  that visit the keys as listed, a time, and an archive of one table whose only row
  has a hide column.
\<close>

definition exampleExport :: "string \<Rightarrow> string \<Rightarrow> SourceExport" where
  "exampleExport dateProperty hideProperty =
     \<lparr>exportConfig = \<lparr>Archive = Zip [], Zone = UTC, ExportDateProperty = dateProperty,
                       ExportHideProperty = hideProperty\<rparr>,
      exportArchive = [], exportName = ''Events.csv''\<rparr>"

definition inOrder :: "string list \<Rightarrow> rowOrder" where
  "inOrder ks = \<lparr>dateOrder = (ks, ks), titleOrder = (ks, ks)\<rparr>"

definition noon :: Time where
  "noon = \<lparr>Year = 2023, Month = 1, Day = 2, Hour = 12, Minute = 0, Second = 0,
            Nanosecond = 0, ZoneOffset = 0, Location = UTC\<rparr>"

definition hideArchive :: "zipEntry list" where
  "hideArchive =
     [\<lparr>EntryName = ''Events.csv'', EntryOpens = True,
       EntryReads = [Record [''Name'', ''Date'', ''Hide''],
                     Record [''Lunch'', ''2023/01/02 12:00'', ''Yes'']]\<rparr>]"


text \<open>
  A service with a database of four fields and two small documents, a page of that
  database, and a live source on it.
\<close>

definition plain :: "string \<Rightarrow> RichText list" where
  "plain s = [\<lparr>PlainText = s\<rparr>]"

definition exampleClient :: Client where
  "exampleClient =
     \<lparr>FindDatabaseByID = (\<lambda>i.
        if i = ''db''
        then Inr \<lparr>DatabaseTitle = plain ''Events'',
                  DatabaseProperties = [(''Name'', ''title''), (''When'', ''date''),
                                        (''Due'', ''date''), (''Done'', ''checkbox'')]\<rparr>
        else Inl (ErrClient ''not found'')),
      FindBlockByID = (\<lambda>i.
        if i = ''page'' then Inr (Block ''page'' True (Heading1Block (plain ''Intro'')))
        else if i = ''root'' then Inr (Block ''root'' True (ParagraphBlock (plain ''r'')))
        else Inl (ErrClient ''not found'')),
      FindBlockChildrenByID = (\<lambda>i query.
        if i = ''page'' \<and> StartCursor query = []
        then Inr \<lparr>Results = [Block ''b1'' False (ParagraphBlock (plain ''hi'')),
                             Block ''b2'' False (BulletedListItemBlock (plain ''a''))],
                  HasMore = True, NextCursor = Some ''c2''\<rparr>
        else if i = ''page'' \<and> StartCursor query = ''c2''
        then Inr \<lparr>Results = [Block ''b3'' False (BulletedListItemBlock (plain ''b''))],
                  HasMore = False, NextCursor = None\<rparr>
        else if i = ''root''
        then Inr \<lparr>Results = [Block ''sub'' True (ChildPageBlock ''Sub'')],
                  HasMore = False, NextCursor = None\<rparr>
        else if i = ''sub''
        then Inr \<lparr>Results = [Block ''b4'' False (ParagraphBlock (plain ''inside''))],
                  HasMore = False, NextCursor = None\<rparr>
        else Inl (ErrClient ''not found''))\<rparr>"

definition field :: "string \<Rightarrow> string \<Rightarrow> unit DatabasePageProperty" where
  "field ty name =
     \<lparr>PropType = ty, PropName = name, PropTitle = [], PropDate = None, PropOther = ()\<rparr>"

definition examplePage :: "Time option \<Rightarrow> unit Page" where
  "examplePage end =
     \<lparr>PageID = ''page'', PageURL = ''https://notion.example/page'', PageIcon = None,
      PageProperties =
        [(''Zebra'', field ''rich_text'' []),
         (''Name'', (field ''title'' [])\<lparr>PropTitle := plain ''Lunch''\<rparr>),
         (''When'', (field ''date'' [])\<lparr>PropDate := Some \<lparr>DateStart = noon, DateEnd = end\<rparr>\<rparr>),
         (''Alpha'', field ''rich_text'' ''Alpha''),
         (''Guests'', field ''relation'' [])]\<rparr>"

definition exampleAPI :: SourceAPI where
  "exampleAPI =
     \<lparr>apiConfig = \<lparr>APIKey = ''secret'', DatabaseID = ''db'', DateProperty = ''When'',
                   HideProperty = []\<rparr>,
      apiClient = exampleClient,
      apiDatabase = \<lparr>DatabaseTitle = plain ''Events'', DatabaseProperties = []\<rparr>\<rparr>"


section \<open>Verification: the date-range parser\<close>

subsection \<open>Times built by the parser are in range\<close>

lemma daysIn_bounds: "1 \<le> m \<Longrightarrow> m \<le> 12 \<Longrightarrow> 28 \<le> daysIn m y \<and> daysIn m y \<le> 31"
proof -
  assume "1 \<le> m" "m \<le> 12"
  then have "m = 1 \<or> m = 2 \<or> m = 3 \<or> m = 4 \<or> m = 5 \<or> m = 6 \<or> m = 7 \<or> m = 8 \<or> m = 9
      \<or> m = 10 \<or> m = 11 \<or> m = 12" by arith
  then show ?thesis
    by (elim disjE) (simp_all add: daysIn_def daysBefore_def)
qed

lemma norm_id: "0 \<le> lo \<Longrightarrow> lo < base \<Longrightarrow> norm hi lo base = (hi, lo)"
  by (simp add: norm_def)

lemma norm_range:
  assumes "0 < base" "norm hi lo base = (hi', lo')"
  shows "0 \<le> lo' \<and> lo' < base"
proof (cases "lo < 0")
  case True
  define n where "n = (- lo - 1) div base + 1"
  have a: "(- lo - 1) = ((- lo - 1) div base) * base + (- lo - 1) mod base" by simp
  have b: "0 \<le> (- lo - 1) mod base" "(- lo - 1) mod base < base" using assms(1) by simp_all
  have "lo + n * base = base - 1 - (- lo - 1) mod base"
    unfolding n_def using a by (simp add: algebra_simps)
  with b have r: "0 \<le> lo + n * base" "lo + n * base < base" by simp_all
  with True assms(2) show ?thesis by (simp add: norm_def Let_def n_def)
next
  case False
  show ?thesis
  proof (cases "lo \<ge> base")
    case True
    have "lo - (lo div base) * base = lo mod base" by (simp add: minus_div_mult_eq_mod)
    moreover have "0 \<le> lo mod base" "lo mod base < base" using assms(1) by simp_all
    moreover from True False assms(2) have "lo' = lo - (lo div base) * base"
      by (auto simp: norm_def Let_def)
    ultimately show ?thesis by simp
  next
    case f: False
    with False assms show ?thesis by (auto simp: norm_def)
  qed
qed

lemma normDay_range:
  "1 \<le> m \<Longrightarrow> m \<le> 12 \<Longrightarrow> normDay y m d = (y', m', d') \<Longrightarrow>
     1 \<le> m' \<and> m' \<le> 12 \<and> 1 \<le> d' \<and> d' \<le> daysIn m' y'"
proof (induction y m d rule: normDay.induct)
  case (1 y m d)
  show ?case
  proof (cases "d < 1")
    case True
    define ym where "ym = (if m \<le> 1 then (y - 1, 12) else (y, m - 1))"
    obtain y1 m1 where e: "ym = (y1, m1)" by (cases ym) auto
    from "1.prems" have m1: "1 \<le> m1" "m1 \<le> 12" using e by (auto simp: ym_def split: if_splits)
    from "1.prems"(3) True e have "normDay y1 m1 (d + monthDays m1 y1) = (y', m', d')"
      by (simp add: normDay.simps [of y m d] ym_def [symmetric])
    with "1.IH"(1) [OF True e [unfolded ym_def, symmetric] refl m1] show ?thesis by simp
  next
    case False
    show ?thesis
    proof (cases "d > monthDays m y")
      case True
      define ym where "ym = (if m \<ge> 12 then (y + 1, 1) else (y, m + 1))"
      obtain y1 m1 where e: "ym = (y1, m1)" by (cases ym) auto
      from "1.prems" have m1: "1 \<le> m1" "m1 \<le> 12" using e by (auto simp: ym_def split: if_splits)
      from "1.prems"(3) True False e have "normDay y1 m1 (d - monthDays m y) = (y', m', d')"
        by (simp add: normDay.simps [of y m d] ym_def [symmetric])
      with "1.IH"(2) [OF False True e [unfolded ym_def, symmetric] refl m1] show ?thesis by simp
    next
      case f: False
      from "1.prems" daysIn_bounds [of m y] have "monthDays m y = daysIn m y"
        by (simp add: monthDays_def)
      with "1.prems" False f show ?thesis by (simp add: normDay.simps [of y m d])
    qed
  qed
qed

lemma normalizeDate_id:
  assumes "1 \<le> m" "m \<le> 12" "1 \<le> d" "d \<le> daysIn m y" "0 \<le> h" "h < 24" "0 \<le> mi" "mi < 60"
    "0 \<le> s" "s < 60" "0 \<le> ns" "ns < 1000000000"
  shows "normalizeDate y m d h mi s ns = (y, m, d, h, mi, s, ns)"
proof -
  from assms daysIn_bounds [of m y] have md: "monthDays m y = daysIn m y"
    by (simp add: monthDays_def)
  with assms have nd: "normDay y m d = (y, m, d)" by (simp add: normDay.simps)
  from assms show ?thesis
    by (simp add: normalizeDate_def norm_id nd)
qed

lemma normalizeDate_range:
  assumes "normalizeDate y mo d h mi s ns = (y2, m2, d2, h2, mi2, s2, ns2)"
  shows "1 \<le> m2 \<and> m2 \<le> 12 \<and> 1 \<le> d2 \<and> d2 \<le> daysIn m2 y2 \<and> 0 \<le> h2 \<and> h2 < 24
     \<and> 0 \<le> mi2 \<and> mi2 < 60 \<and> 0 \<le> s2 \<and> s2 < 60 \<and> 0 \<le> ns2 \<and> ns2 < 1000000000"
proof -
  obtain y1 m0 where a: "norm y (mo - 1) 12 = (y1, m0)" by (cases "norm y (mo - 1) 12") auto
  obtain s1 ns1 where b: "norm s ns 1000000000 = (s1, ns1)" by (cases "norm s ns 1000000000") auto
  obtain mi1 s2' where c: "norm mi s1 60 = (mi1, s2')" by (cases "norm mi s1 60") auto
  obtain h1 mi2' where e: "norm h mi1 60 = (h1, mi2')" by (cases "norm h mi1 60") auto
  obtain d1 h2' where f: "norm d h1 24 = (d1, h2')" by (cases "norm d h1 24") auto
  obtain y3 m3 d3 where g: "normDay y1 (m0 + 1) d1 = (y3, m3, d3)"
    by (cases "normDay y1 (m0 + 1) d1") auto
  from assms a b c e f g have r: "y2 = y3" "m2 = m3" "d2 = d3" "h2 = h2'" "mi2 = mi2'" "s2 = s2'" "ns2 = ns1"
    by (simp_all add: normalizeDate_def)
  from norm_range [OF _ a] have ma: "1 \<le> m0 + 1" "m0 + 1 \<le> 12" by simp_all
  from normDay_range [OF ma g] norm_range [OF _ b] norm_range [OF _ c] norm_range [OF _ e]
    norm_range [OF _ f] r
  show ?thesis by simp
qed

lemma Date_valid: "validTime (Date y mo d h mi s ns l) \<and> Location (Date y mo d h mi s ns l) = l"
proof -
  obtain y2 m2 d2 h2 mi2 s2 ns1 where a: "normalizeDate y mo d h mi s ns = (y2, m2, d2, h2, mi2, s2, ns1)"
    by (cases "normalizeDate y mo d h mi s ns") auto
  define delta where "delta = offsetAt l (wallSeconds y2 m2 d2 h2 mi2 s2
       - dateOffset l (wallSeconds y2 m2 d2 h2 mi2 s2)) - dateOffset l (wallSeconds y2 m2 d2 h2 mi2 s2)"
  obtain y3 m3 d3 h3 mi3 s3 ns3 where b: "normalizeDate y2 m2 d2 h2 mi2 (s2 + delta) ns1 = (y3, m3, d3, h3, mi3, s3, ns3)"
    by (cases "normalizeDate y2 m2 d2 h2 mi2 (s2 + delta) ns1") auto
  from a b have "Date y mo d h mi s ns l = \<lparr>Year = y3, Month = m3, Day = d3, Hour = h3, Minute = mi3, Second = s3,
                Nanosecond = ns3, ZoneOffset = delta + dateOffset l (wallSeconds y2 m2 d2 h2 mi2 s2), Location = l\<rparr>"
    by (simp add: Date_def Let_def delta_def)
  with normalizeDate_range [OF b] show ?thesis by (simp add: validTime_def)
qed

lemma Date_kept:
  assumes "1 \<le> m" "m \<le> 12" "1 \<le> d" "d \<le> daysIn m y" "0 \<le> h" "h < 24" "0 \<le> mi" "mi < 60"
    "0 \<le> s" "s < 60" "0 \<le> ns" "ns < 1000000000"
    and "keepsReading l (wallSeconds y m d h mi s)"
  shows "Date y m d h mi s ns l =
     \<lparr>Year = y, Month = m, Day = d, Hour = h, Minute = mi, Second = s, Nanosecond = ns,
      ZoneOffset = dateOffset l (wallSeconds y m d h mi s), Location = l\<rparr>"
proof -
  from assms have n: "normalizeDate y m d h mi s ns = (y, m, d, h, mi, s, ns)"
    by (intro normalizeDate_id) auto
  from assms(13) have k: "offsetAt l (wallSeconds y m d h mi s - dateOffset l (wallSeconds y m d h mi s))
      = dateOffset l (wallSeconds y m d h mi s)" by (simp add: keepsReading_def)
  show ?thesis by (simp add: Date_def n k Let_def)
qed

lemma fixed_offset:
  assumes "transitions l = []"
  shows "offsetAt l x = firstOffset l" "dateOffset l x = firstOffset l" "keepsReading l x"
proof -
  from assms show a: "offsetAt l x = firstOffset l" for x by (simp add: offsetAt_def zoneLookup_def)
  from assms show b: "dateOffset l x = firstOffset l" for x
    by (simp add: dateOffset_def zoneLookup_def outside_def)
  from a b show "keepsReading l x" by (simp add: keepsReading_def)
qed

lemma lookup_range: "lookup tab v = Some (i, r) \<Longrightarrow> 0 \<le> i \<and> i < int (length tab)"
  by (induction tab arbitrary: i) (auto split: if_splits option.splits)

lemma parseStd_pinv: "parseStd verb v st = Some (v', st') \<Longrightarrow> pinv st \<Longrightarrow> pinv st'"
proof (cases verb)
  case stdLongMonth
  assume a: "parseStd verb v st = Some (v', st')" and i: "pinv st"
  from a stdLongMonth obtain i where l: "lookup longMonthNames v = Some (i, v')"
    and s: "st' = st\<lparr>pmonth := i + 1\<rparr>"
    by (auto split: option.splits)
  from lookup_range [OF l] have "0 \<le> i \<and> i < 12" by (simp add: longMonthNames_def)
  with i s show ?thesis by (simp add: pinv_def)
qed (auto simp: pinv_def split: if_splits option.splits)

lemma parseLoop_pinv: "parseLoop layout v st = Some st' \<Longrightarrow> pinv st \<Longrightarrow> pinv st'"
proof (induction layout v st rule: parseLoop.induct)
  case (1 layout v st)
  obtain pre sd suf where c: "nextStdChunk layout = (pre, sd, suf)"
    by (cases "nextStdChunk layout") auto
  from "1.prems"(1) c obtain v1 where s: "skip v pre = Some v1"
    by (auto simp: parseLoop.simps [of layout] split: option.splits)
  show ?case
  proof (cases sd)
    case None
    with "1.prems" c s show ?thesis
      by (auto simp: parseLoop.simps [of layout] split: if_splits)
  next
    case (Some verb)
    with "1.prems"(1) c s obtain v2 st2 where p: "parseStd verb v1 st = Some (v2, st2)"
      and r: "parseLoop suf v2 st2 = Some st'"
      by (auto simp: parseLoop.simps [of layout] split: option.splits)
    from parseStd_pinv [OF p "1.prems"(2)] have "pinv st2" .
    with "1.IH" [OF c [symmetric] refl s Some p refl] r show ?thesis by simp
  qed
qed

lemma ParseInLocation_valid:
  assumes "ParseInLocation layout v l = Some t"
  shows "validTime t \<and> Location t = l"
proof -
  from assms obtain y m d h mi where "t = Date y m d h mi 0 0 l"
    by (auto simp: ParseInLocation_def Let_def split: option.splits if_splits)
  with Date_valid show ?thesis by simp
qed

lemma firstParse_valid:
  "firstParse fs d zone = Some t \<Longrightarrow> validTime t \<and> Location t = zone"
  by (induction fs) (auto split: option.splits dest: ParseInLocation_valid)

lemma parseNotionDate_valid:
  "parseNotionDate d zone = Inr t \<Longrightarrow> validTime t \<and> Location t = zone"
  by (auto simp: parseNotionDate_def Let_def split: option.splits dest: firstParse_valid)

lemma parseNotionTime_valid:
  "parseNotionTime d zone = Inr t \<Longrightarrow> validTime t \<and> Location t = zone"
  by (auto simp: parseNotionTime_def Let_def split: option.splits dest: firstParse_valid)

lemma mergeNotionDateTime_kept:
  assumes "validTime date" "validTime t"
    and "keepsReading (Location t)
           (wallSeconds (Year date) (Month date) (Day date) (Hour t) (Minute t) (Second t))"
  shows "mergeNotionDateTime date t =
     \<lparr>Year = Year date, Month = Month date, Day = Day date, Hour = Hour t,
      Minute = Minute t, Second = Second t, Nanosecond = 0,
      ZoneOffset = dateOffset (Location t)
         (wallSeconds (Year date) (Month date) (Day date) (Hour t) (Minute t) (Second t)),
      Location = Location t\<rparr>"
  unfolding mergeNotionDateTime_def using assms
  by (intro Date_kept) (auto simp: validTime_def)


subsection \<open>Every layout needs a colon\<close>

lemma skip_subset: "skip v pre = Some v1 \<Longrightarrow> set v1 \<subseteq> set v"
proof (induction v pre rule: skip.induct)
  case (1 v)
  then show ?case by simp
next
  case (2 v p ps)
  show ?case
  proof (cases "p = CHR '' ''")
    case True
    with 2 have "set v1 \<subseteq> set (cutspace v)" by (auto split: if_splits)
    moreover have "set (cutspace v) \<subseteq> set v"
      by (simp add: cutspace_def set_dropWhileD subsetI)
    ultimately show ?thesis by blast
  next
    case False
    with 2 have "set v1 \<subseteq> set (tl v)" by (auto split: if_splits)
    moreover have "set (tl v) \<subseteq> set v" by (cases v) auto
    ultimately show ?thesis by blast
  qed
qed

lemma cutspace_mem: "c \<in> set ps \<Longrightarrow> c \<noteq> CHR '' '' \<Longrightarrow> c \<in> set (cutspace ps)"
  by (induction ps) (auto simp: cutspace_def)

lemma skip_literal: "skip v pre = Some v1 \<Longrightarrow> c \<in> set pre \<Longrightarrow> c \<noteq> CHR '' '' \<Longrightarrow> c \<in> set v"
proof (induction v pre rule: skip.induct)
  case (1 v)
  then show ?case by simp
next
  case (2 v p ps)
  show ?case
  proof (cases "p = CHR '' ''")
    case True
    with 2 have s: "skip (cutspace v) (cutspace (p # ps)) = Some v1" by (auto split: if_splits)
    from 2 have "c \<in> set (cutspace (p # ps))" by (intro cutspace_mem) auto
    with 2 True s have "c \<in> set (cutspace v)" by (auto split: if_splits)
    then show ?thesis by (auto simp: cutspace_def dest: set_dropWhileD)
  next
    case False
    with 2 have ne: "v \<noteq> []" "hd v = p" and s: "skip (tl v) ps = Some v1"
      by (auto split: if_splits)
    show ?thesis
    proof (cases "c = p")
      case True
      with ne show ?thesis by (cases v) auto
    next
      case cp: False
      with 2 have "c \<in> set ps" by auto
      with 2 False ne s have "c \<in> set (tl v)" by (auto split: if_splits)
      then show ?thesis by (cases v) auto
    qed
  qed
qed

lemma lookup_subset: "lookup tab v = Some (i, r) \<Longrightarrow> x \<in> set r \<Longrightarrow> x \<in> set v"
  by (induction tab arbitrary: i) (auto split: if_splits option.splits dest: in_set_dropD)

lemma getnum_subset: "getnum v f = Some (n, r) \<Longrightarrow> x \<in> set r \<Longrightarrow> x \<in> set v"
  by (auto simp: getnum_def split: if_splits dest: in_set_dropD)

lemma parseStd_subset: "parseStd verb v st = Some (v', st') \<Longrightarrow> set v' \<subseteq> set v"
  by (cases verb)
     (auto split: if_splits option.splits dest: in_set_dropD lookup_subset getnum_subset)

lemma nextStdChunk_colon:
  "nextStdChunk l = (pre, sd, suf) \<Longrightarrow> CHR '':'' \<in> set l
     \<Longrightarrow> CHR '':'' \<in> set pre \<or> CHR '':'' \<in> set suf"
proof (induction l arbitrary: pre sd suf)
  case Nil
  then show ?case by simp
next
  case (Cons c cs)
  show ?case
  proof (cases "List.find (\<lambda>(w, sd). prefix w (c # cs)) verbs")
    case None
    obtain p' sd' suf' where n: "nextStdChunk cs = (p', sd', suf')"
      by (cases "nextStdChunk cs") auto
    with None Cons.prems(1) have e: "pre = c # p'" "sd = sd'" "suf = suf'"
      by (simp_all del: Cons_prefix_Cons)
    show ?thesis
    proof (cases "c = CHR '':''")
      case True
      with e show ?thesis by simp
    next
      case False
      with Cons.prems have "CHR '':'' \<in> set cs" by simp
      from Cons.IH [OF n this] e show ?thesis by auto
    qed
  next
    case (Some a)
    obtain w sd' where a: "a = (w, sd')" by (cases a)
    from Some a have m: "(w, sd') \<in> set verbs" and p: "prefix w (c # cs)"
      by (auto dest: find_SomeD)
    from m have "CHR '':'' \<notin> set w" by (auto simp: verbs_def)
    moreover from p obtain r where r: "c # cs = w @ r" by (auto simp: prefix_def)
    moreover from Cons.prems(1) Some a have "suf = drop (length w) (c # cs)"
      by (simp del: Cons_prefix_Cons)
    ultimately show ?thesis using Cons.prems(2) by (simp del: Cons_prefix_Cons)
  qed
qed

lemma nextStdChunk_None: "nextStdChunk l = (pre, None, suf) \<Longrightarrow> suf = []"
  by (induction l arbitrary: pre) (auto simp del: Cons_prefix_Cons split: option.splits prod.splits)

lemma parseLoop_colon:
  "parseLoop layout v st = Some st' \<Longrightarrow> CHR '':'' \<in> set layout \<Longrightarrow> CHR '':'' \<in> set v"
proof (induction layout v st rule: parseLoop.induct)
  case (1 layout v st)
  obtain pre sd suf where c: "nextStdChunk layout = (pre, sd, suf)"
    by (cases "nextStdChunk layout") auto
  from "1.prems"(1) c obtain v1 where s: "skip v pre = Some v1"
    by (auto simp: parseLoop.simps [of layout] split: option.splits)
  from nextStdChunk_colon [OF c "1.prems"(2)]
  consider "CHR '':'' \<in> set pre" | "CHR '':'' \<in> set suf" "CHR '':'' \<notin> set pre" by blast
  then show ?case
  proof cases
    case 1
    from skip_literal [OF s 1] show ?thesis by simp
  next
    case 2
    show ?thesis
    proof (cases sd)
      case None
      with c have "suf = []" by (simp add: nextStdChunk_None)
      with 2 show ?thesis by simp
    next
      case (Some verb)
      with "1.prems"(1) c s obtain v2 st2 where p: "parseStd verb v1 st = Some (v2, st2)"
        and r: "parseLoop suf v2 st2 = Some st'"
        by (auto simp: parseLoop.simps [of layout] split: option.splits)
      from "1.IH" [OF c [symmetric] refl s Some p refl r 2(1)] have "CHR '':'' \<in> set v2" .
      with parseStd_subset [OF p] skip_subset [OF s] show ?thesis by blast
    qed
  qed
qed

lemma firstParse_colon:
  "firstParse fs d zone = Some t \<Longrightarrow> \<forall>f \<in> set fs. CHR '':'' \<in> set f \<Longrightarrow> CHR '':'' \<in> set d"
  by (induction fs)
     (auto simp: ParseInLocation_def split: option.splits dest: parseLoop_colon)

lemma TrimLeft_subset: "set (TrimLeft s) \<subseteq> set s"
proof (induction s rule: TrimLeft.induct)
  case (1 s)
  show ?case
  proof (cases "List.find (\<lambda>sp. prefix sp s) spaces")
    case None
    then show ?thesis by (simp add: TrimLeft.simps [of s])
  next
    case (Some sp)
    show ?thesis
    proof (cases "sp = []")
      case True
      with Some show ?thesis by (simp add: TrimLeft.simps [of s])
    next
      case False
      from "1.IH" [OF Some False] have "set (TrimLeft (drop (length sp) s)) \<subseteq> set s"
        by (auto dest: in_set_dropD)
      with Some False show ?thesis by (simp add: TrimLeft.simps [of s])
    qed
  qed
qed

lemma TrimRight_subset: "set (TrimRight s) \<subseteq> set s"
proof (induction s rule: TrimRight.induct)
  case (1 s)
  show ?case
  proof (cases "List.find (\<lambda>sp. suffix sp s) spaces")
    case None
    then show ?thesis by (simp add: TrimRight.simps [of s])
  next
    case (Some sp)
    show ?thesis
    proof (cases "sp = []")
      case True
      with Some show ?thesis by (simp add: TrimRight.simps [of s])
    next
      case False
      from "1.IH" [OF Some False] have "set (TrimRight (take (length s - length sp) s)) \<subseteq> set s"
        by (auto dest: in_set_takeD)
      with Some False show ?thesis by (simp add: TrimRight.simps [of s])
    qed
  qed
qed

lemma TrimSpace_subset: "set (TrimSpace s) \<subseteq> set s"
  unfolding TrimSpace_def using TrimLeft_subset TrimRight_subset by blast

lemma parseNotionDate_colon: "parseNotionDate d zone = Inr t \<Longrightarrow> CHR '':'' \<in> set d"
proof -
  assume a: "parseNotionDate d zone = Inr t"
  let ?fs = "concat (map (\<lambda>fd. map (\<lambda>ft. fd @ '' '' @ ft) notionTimeFormats) notionDateFormats)"
  from a have f: "firstParse ?fs (TrimSpace d) zone = Some t"
    by (auto simp: parseNotionDate_def Let_def split: option.splits)
  have "\<forall>f \<in> set ?fs. CHR '':'' \<in> set f"
    by (simp add: notionTimeFormats_def notionDateFormats_def)
  from firstParse_colon [OF f this] TrimSpace_subset show ?thesis by blast
qed

lemma SplitN2_first_subset: "set (SplitN2 r sep ! 0) \<subseteq> set r"
  by (auto simp: SplitN2_def split: option.splits dest: in_set_takeD)



subsection \<open>Claims about the date-range parser\<close>

text \<open>
  Claim C1, as amended. An input without an arrow gives no end of its own: the parser
  returns the one parsed time as start and as end, so the end equals the start (and
  is not before it). When the parse of the only part fails, that error is the result.
  With an arrow the end is whatever the right part parses to; no order between start
  and end is checked.
\<close>

theorem DateRangeParser_no_arrow:
  assumes "Index r arrow = None"
  shows "parseNotionDateRange r zone =
       (case parseNotionDate r zone of Inl err \<Rightarrow> Inl err | Inr t \<Rightarrow> Inr (t, t))
     \<and> (\<forall>s e. parseNotionDateRange r zone = Inr (s, e) \<longrightarrow> e = s \<and> \<not> Before e s)"
proof -
  from assms have eq: "parseNotionDateRange r zone =
       (case parseNotionDate r zone of Inl err \<Rightarrow> Inl err | Inr t \<Rightarrow> Inr (t, t))"
    by (simp add: parseNotionDateRange_def SplitN2_def split: sum.splits)
  then show ?thesis
    by (auto simp: Before_def split: sum.splits)
qed

theorem DateRangeParser_no_arrow_witness:
  "Index ''2023/01/02 09:30'' arrow = None
   \<and> parseNotionDateRange ''2023/01/02 09:30'' UTC =
       Inr (\<lparr>Year = 2023, Month = 1, Day = 2, Hour = 9, Minute = 30, Second = 0,
              Nanosecond = 0, ZoneOffset = 0, Location = UTC\<rparr>,
            \<lparr>Year = 2023, Month = 1, Day = 2, Hour = 9, Minute = 30, Second = 0,
              Nanosecond = 0, ZoneOffset = 0, Location = UTC\<rparr>)"
proof -
  have i: "Index ''2023/01/02 09:30'' arrow = None" by code_simp
  have p: "parseNotionDate ''2023/01/02 09:30'' UTC =
       Inr \<lparr>Year = 2023, Month = 1, Day = 2, Hour = 9, Minute = 30, Second = 0,
              Nanosecond = 0, ZoneOffset = 0, Location = UTC\<rparr>" by code_simp
  from DateRangeParser_no_arrow [OF i, of UTC] p i show ?thesis by simp
qed

text \<open>
  Claim C1 as stated fails: the end of a range may lie before its start. The right
  part of this input is a full date one day and one hour before the left part.
\<close>

theorem DateRangeParser_end_before_start:
  "parseNotionDateRange (''2023/01/02 10:00 '' @ arrow @ '' 2023/01/01 09:00'') UTC =
       Inr (\<lparr>Year = 2023, Month = 1, Day = 2, Hour = 10, Minute = 0, Second = 0,
              Nanosecond = 0, ZoneOffset = 0, Location = UTC\<rparr>,
            \<lparr>Year = 2023, Month = 1, Day = 1, Hour = 9, Minute = 0, Second = 0,
              Nanosecond = 0, ZoneOffset = 0, Location = UTC\<rparr>)
   \<and> Before \<lparr>Year = 2023, Month = 1, Day = 1, Hour = 9, Minute = 0, Second = 0,
              Nanosecond = 0, ZoneOffset = 0, Location = UTC\<rparr>
            \<lparr>Year = 2023, Month = 1, Day = 2, Hour = 10, Minute = 0, Second = 0,
              Nanosecond = 0, ZoneOffset = 0, Location = UTC\<rparr>"
  by code_simp

text \<open>
  Claim C2, as amended. Every layout the parser tries is a date format, a space and a
  time format, and each time format has a colon: a text without a colon (so any text
  that carries a date only) is refused with the parse error that names the trimmed
  left part.
\<close>

theorem DateRangeParser_needs_time:
  "CHR '':'' \<notin> set r \<Longrightarrow>
     parseNotionDateRange r zone = Inl (ErrParseDate (TrimSpace (SplitN2 r arrow ! 0)))"
proof -
  assume a: "CHR '':'' \<notin> set r"
  with SplitN2_first_subset [of r arrow] have "CHR '':'' \<notin> set (SplitN2 r arrow ! 0)" by blast
  then have "\<not> (\<exists>t. parseNotionDate (SplitN2 r arrow ! 0) zone = Inr t)"
    using parseNotionDate_colon by blast
  then have "parseNotionDate (SplitN2 r arrow ! 0) zone
      = Inl (ErrParseDate (TrimSpace (SplitN2 r arrow ! 0)))"
    by (auto simp: parseNotionDate_def Let_def split: option.splits)
  then show ?thesis by (simp add: parseNotionDateRange_def Let_def)
qed

theorem DateRangeParser_needs_time_witness:
  "CHR '':'' \<notin> set ''January 2, 2023''
   \<and> parseNotionDateRange ''January 2, 2023'' UTC = Inl (ErrParseDate ''January 2, 2023'')"
proof -
  have c: "CHR '':'' \<notin> set ''January 2, 2023''" by simp
  have t: "TrimSpace (SplitN2 ''January 2, 2023'' arrow ! 0) = ''January 2, 2023''"
    by code_simp
  from DateRangeParser_needs_time [OF c, of UTC] c t show ?thesis by simp
qed

text \<open>
  Claim C2 as stated fails: the date-only text of the specification's example does
  not parse.
\<close>

theorem DateRangeParser_date_only_rejected:
  "parseNotionDateRange ''2023/01/02'' UTC = Inl (ErrParseDate ''2023/01/02'')"
  by code_simp

text \<open>
  With a time the same date parses, to the same start and end: midnight of that day
  as \<^verbatim>\<open>time.Date\<close> gives it in the zone.
\<close>

lemma DateRangeParser_midnight:
  "parseNotionDateRange ''2023/01/02 00:00'' zone =
       Inr (Date 2023 1 2 0 0 0 0 zone, Date 2023 1 2 0 0 0 0 zone)"
  by code_simp

lemma DateRangeParser_midnight_UTC:
  "parseNotionDateRange ''2023/01/02 00:00'' UTC =
       Inr (\<lparr>Year = 2023, Month = 1, Day = 2, Hour = 0, Minute = 0, Second = 0,
              Nanosecond = 0, ZoneOffset = 0, Location = UTC\<rparr>,
            \<lparr>Year = 2023, Month = 1, Day = 2, Hour = 0, Minute = 0, Second = 0,
              Nanosecond = 0, ZoneOffset = 0, Location = UTC\<rparr>)"
  by code_simp

text \<open>
  Claim C7, as amended. The input has an arrow (the split gives a left and a right
  part), the left part parses as a date with a time, the right part parses as no date
  with a time but as a time alone. Then the range starts at the left part's time and
  ends at \<^verbatim>\<open>time.Date\<close> of the year, month and day of the left part and the hour,
  minute and second of the right part, in the zone given. Whenever \<^verbatim>\<open>time.Date\<close>
  keeps that reading, the end has exactly these calendar fields; it keeps every
  reading in a zone without transitions.
\<close>

theorem DateRangeParser_time_only_right:
  assumes "SplitN2 r arrow = [left, right]"
    and "parseNotionDate left zone = Inr t1"
    and "parseNotionDate right zone = Inl err"
    and "parseNotionTime right zone = Inr t2"
  shows "parseNotionDateRange r zone =
       Inr (t1, Date (Year t1) (Month t1) (Day t1) (Hour t2) (Minute t2) (Second t2) 0 zone)
     \<and> (keepsReading zone
           (wallSeconds (Year t1) (Month t1) (Day t1) (Hour t2) (Minute t2) (Second t2)) \<longrightarrow>
         (\<exists>t. parseNotionDateRange r zone = Inr (t1, t)
            \<and> Year t = Year t1 \<and> Month t = Month t1 \<and> Day t = Day t1
            \<and> Hour t = Hour t2 \<and> Minute t = Minute t2 \<and> Second t = Second t2
            \<and> Nanosecond t = 0 \<and> Location t = zone))
     \<and> (transitions zone = [] \<longrightarrow>
         keepsReading zone
           (wallSeconds (Year t1) (Month t1) (Day t1) (Hour t2) (Minute t2) (Second t2)))"
proof (intro conjI impI)
  from assms(2) have v1: "validTime t1" by (simp add: parseNotionDate_valid)
  from assms(4) have v2: "validTime t2" "Location t2 = zone"
    by (simp_all add: parseNotionTime_valid)
  from assms have m: "parseNotionDateRange r zone = Inr (t1, mergeNotionDateTime t1 t2)"
    by (simp add: parseNotionDateRange_def)
  with v2(2) show "parseNotionDateRange r zone =
       Inr (t1, Date (Year t1) (Month t1) (Day t1) (Hour t2) (Minute t2) (Second t2) 0 zone)"
    by (simp add: mergeNotionDateTime_def)
  show "\<exists>t. parseNotionDateRange r zone = Inr (t1, t)
            \<and> Year t = Year t1 \<and> Month t = Month t1 \<and> Day t = Day t1
            \<and> Hour t = Hour t2 \<and> Minute t = Minute t2 \<and> Second t = Second t2
            \<and> Nanosecond t = 0 \<and> Location t = zone"
    if "keepsReading zone
           (wallSeconds (Year t1) (Month t1) (Day t1) (Hour t2) (Minute t2) (Second t2))"
    using mergeNotionDateTime_kept [OF v1 v2(1)] that v2(2) m by simp
  show "keepsReading zone
           (wallSeconds (Year t1) (Month t1) (Day t1) (Hour t2) (Minute t2) (Second t2))"
    if "transitions zone = []"
    using that by (rule fixed_offset(3))
qed

theorem DateRangeParser_time_only_right_witness:
  "keepsReading UTC (wallSeconds 2023 1 2 17 0 0)
   \<and> parseNotionDateRange (''January 2, 2023 3:00 PM '' @ arrow @ '' 5:00 PM'') UTC =
       Inr (\<lparr>Year = 2023, Month = 1, Day = 2, Hour = 15, Minute = 0, Second = 0,
              Nanosecond = 0, ZoneOffset = 0, Location = UTC\<rparr>,
            \<lparr>Year = 2023, Month = 1, Day = 2, Hour = 17, Minute = 0, Second = 0,
              Nanosecond = 0, ZoneOffset = 0, Location = UTC\<rparr>)"
proof -
  let ?t1 = "\<lparr>Year = 2023, Month = 1, Day = 2, Hour = 15, Minute = 0, Second = 0,
              Nanosecond = 0, ZoneOffset = 0, Location = UTC\<rparr>"
  let ?t2 = "\<lparr>Year = 0, Month = 1, Day = 1, Hour = 17, Minute = 0, Second = 0,
              Nanosecond = 0, ZoneOffset = 0, Location = UTC\<rparr>"
  have s: "SplitN2 (''January 2, 2023 3:00 PM '' @ arrow @ '' 5:00 PM'') arrow
      = [''January 2, 2023 3:00 PM '', '' 5:00 PM'']" by code_simp
  have l: "parseNotionDate ''January 2, 2023 3:00 PM '' UTC = Inr ?t1" by code_simp
  have r: "parseNotionDate '' 5:00 PM'' UTC = Inl (ErrParseDate ''5:00 PM'')" by code_simp
  have t: "parseNotionTime '' 5:00 PM'' UTC = Inr ?t2" by code_simp
  have k: "keepsReading UTC (wallSeconds 2023 1 2 17 0 0)"
    by (rule fixed_offset(3)) (simp add: UTC_def)
  have o: "dateOffset UTC (wallSeconds 2023 1 2 17 0 0) = 0"
    by (simp add: fixed_offset(2) UTC_def)
  from DateRangeParser_time_only_right [OF s l r t] k obtain u where
    u: "parseNotionDateRange (''January 2, 2023 3:00 PM '' @ arrow @ '' 5:00 PM'') UTC
          = Inr (?t1, u)"
      "u = Date 2023 1 2 17 0 0 0 UTC"
      "Year u = 2023" "Month u = 1" "Day u = 2" "Hour u = 17" "Minute u = 0" "Second u = 0"
      "Nanosecond u = 0" "Location u = UTC"
    by auto
  have "Date 2023 1 2 17 0 0 0 UTC =
      \<lparr>Year = 2023, Month = 1, Day = 2, Hour = 17, Minute = 0, Second = 0,
       Nanosecond = 0, ZoneOffset = dateOffset UTC (wallSeconds 2023 1 2 17 0 0),
       Location = UTC\<rparr>"
    using k by (intro Date_kept) (simp_all add: daysIn_def daysBefore_def)
  with u(1,2) o k show ?thesis by simp
qed

text \<open>
  Claim C7 as stated fails in a zone with daylight-saving time. In the zone
  \<open>newYork\<close> the clocks show no 02:30 on March 12, 2023. The right part parses as no
  date but as the time 02:30, and the end of the range is 01:30 of that day, five
  hours behind UTC: its hour is not the hour of the right part.
\<close>

theorem DateRangeParser_skipped_reading:
  "parseNotionDate '' 2:30'' newYork = Inl (ErrParseDate ''2:30'')
   \<and> parseNotionTime '' 2:30'' newYork =
       Inr \<lparr>Year = 0, Month = 1, Day = 1, Hour = 2, Minute = 30, Second = 0,
             Nanosecond = 0, ZoneOffset = - 18000, Location = newYork\<rparr>
   \<and> parseNotionDateRange (''March 12, 2023 1:00 AM '' @ arrow @ '' 2:30'') newYork =
       Inr (\<lparr>Year = 2023, Month = 3, Day = 12, Hour = 1, Minute = 0, Second = 0,
              Nanosecond = 0, ZoneOffset = - 18000, Location = newYork\<rparr>,
            \<lparr>Year = 2023, Month = 3, Day = 12, Hour = 1, Minute = 30, Second = 0,
              Nanosecond = 0, ZoneOffset = - 18000, Location = newYork\<rparr>)"
  by code_simp

section \<open>Verification: the snapshot source\<close>

subsection \<open>Construction\<close>

text \<open>
  The loop over the archive's files has no \<^verbatim>\<open>break\<close>: the name it ends with is
  that of the last file with the suffix, where the comment above it says
  "Find the first CSV file".
\<close>

lemma findCSV_last:
  "findCSV n files =
     (case filter (\<lambda>f. HasSuffix (EntryName f) ''.csv'') files of
        [] \<Rightarrow> n
      | f # fs \<Rightarrow> EntryName (last (f # fs)))"
  by (induction files arbitrary: n) (auto split: list.splits)

text \<open>
  Claim C3 says that construction selects the first file, in the order of the
  archive, whose name ends in \<^verbatim>\<open>.csv\<close>. In an archive that lists \<^verbatim>\<open>a.csv\<close>
  before \<^verbatim>\<open>b.csv\<close> the code selects \<^verbatim>\<open>b.csv\<close>.
\<close>

theorem NewSourceExport_takes_last_csv:
  "map_sum id exportName
     (NewSourceExport
        \<lparr>Archive = Zip [\<lparr>EntryName = ''a.csv'', EntryOpens = True, EntryReads = []\<rparr>,
                        \<lparr>EntryName = ''b.csv'', EntryOpens = True, EntryReads = []\<rparr>],
         Zone = UTC, ExportDateProperty = [], ExportHideProperty = []\<rparr>)
   = Inr ''b.csv''"
  by code_simp

subsection \<open>Column resolution\<close>

lemma firstEqual_filter:
  "set ks \<subseteq> dom m \<Longrightarrow> firstEqual u names m ks = firstOf (matchesExactly u names) m ks"
  by (induction ks) (auto simp: firstOf_def matchesExactly_def split: option.splits)

lemma firstContains_filter:
  "set ks \<subseteq> dom m \<Longrightarrow> firstContains u names m ks = firstOf (matchesPartly u names) m ks"
  by (induction ks) (auto simp: firstOf_def matchesPartly_def split: option.splits)

lemma findFirstColumn_filter:
  assumes "rangeOf m (fst order)" "rangeOf m (snd order)"
  shows "findFirstColumn u names m order =
     (case firstOf (matchesExactly u names) m (fst order) of
        Some kv \<Rightarrow> kv
      | None \<Rightarrow> (case firstOf (matchesPartly u names) m (snd order) of
                    Some kv \<Rightarrow> kv | None \<Rightarrow> ([], [])))"
proof -
  from assms have "set (fst order) \<subseteq> dom m" "set (snd order) \<subseteq> dom m"
    by (simp_all add: rangeOf_def)
  then have "firstEqual u names m (fst order) = firstOf (matchesExactly u names) m (fst order)"
    "firstContains u names m (snd order) = firstOf (matchesPartly u names) m (snd order)"
    by (simp_all add: firstEqual_filter firstContains_filter)
  then show ?thesis by (simp add: findFirstColumn_def split: option.splits)
qed

lemma ToLower_Nil: "ToLower u [] = []"
  by (simp add: ToLower_def)

lemma ToLower_names:
  "ToLower u ''date'' = ''date''" "ToLower u ''when'' = ''when''"
  "ToLower u ''period'' = ''period''" "ToLower u ''name'' = ''name''"
  "ToLower u ''title'' = ''title''"
  by (simp_all add: ToLower_def lowerASCII_def less_char_def less_eq_char_def)

lemma no_empty_key:
  "\<not> matchesExactly u [''date'', ''when'', ''period''] []"
  "\<not> matchesPartly u [''date'', ''when'', ''period''] []"
  "\<not> matchesExactly u [''name'', ''title''] []"
  "\<not> matchesPartly u [''name'', ''title''] []"
  by (simp_all add: matchesExactly_def matchesPartly_def ToLower_Nil ToLower_names Contains_def)

lemma firstOf_key: "firstOf P m ks = Some (k, v) \<Longrightarrow> P k \<and> k \<in> set ks \<and> v = the (m k)"
proof -
  assume a: "firstOf P m ks = Some (k, v)"
  then obtain r where f: "filter P ks = k # r" and v: "v = the (m k)"
    by (auto simp: firstOf_def split: list.splits)
  from f have "k \<in> set (filter P ks)" by simp
  with v show ?thesis by simp
qed

lemma dateColumn_filter:
  assumes "ExportDateProperty (exportConfig s) = []"
    and "rangeOf m (fst (dateOrder ord))" "rangeOf m (snd (dateOrder ord))"
  shows "dateColumn u s ord m =
     (case firstOf (matchesExactly u [''date'', ''when'', ''period'']) m (fst (dateOrder ord)) of
        Some kv \<Rightarrow> Inr kv
      | None \<Rightarrow>
          (case firstOf (matchesPartly u [''date'', ''when'', ''period'']) m (snd (dateOrder ord)) of
             Some kv \<Rightarrow> Inr kv
           | None \<Rightarrow> Inl ErrNoDateProperty))"
  using assms(1) findFirstColumn_filter [OF assms(2,3), of u "[''date'', ''when'', ''period'']"]
  by (auto simp: dateColumn_def split: option.splits dest!: firstOf_key simp: no_empty_key)

lemma titleColumn_filter:
  assumes "rangeOf m (fst (titleOrder ord))" "rangeOf m (snd (titleOrder ord))"
  shows "titleColumn u ord m =
     (case firstOf (matchesExactly u [''name'', ''title'']) m (fst (titleOrder ord)) of
        Some kv \<Rightarrow> Inr kv
      | None \<Rightarrow>
          (case firstOf (matchesPartly u [''name'', ''title'']) m (snd (titleOrder ord)) of
             Some kv \<Rightarrow> Inr kv
           | None \<Rightarrow> Inl ErrNoTitleProperty))"
  using findFirstColumn_filter [OF assms, of u "[''name'', ''title'']"]
  by (auto simp: titleColumn_def split: option.splits dest!: firstOf_key simp: no_empty_key)

lemma lower_examples:
  "ToLower u ''When'' = ''when''" "ToLower u ''Event Name'' = ''event name''"
  "ToLower u ''Notes'' = ''notes''" "ToLower u ''Period'' = ''period''"
  "ToLower u ''Date'' = ''date''"
  by code_simp+

lemma match_examples:
  "matchesExactly u [''date'', ''when'', ''period''] ''When''"
  "\<not> matchesExactly u [''date'', ''when'', ''period''] ''Event Name''"
  "\<not> matchesExactly u [''date'', ''when'', ''period''] ''Notes''"
  "\<not> matchesExactly u [''name'', ''title''] ''When''"
  "\<not> matchesExactly u [''name'', ''title''] ''Event Name''"
  "\<not> matchesExactly u [''name'', ''title''] ''Notes''"
  "\<not> matchesPartly u [''name'', ''title''] ''When''"
  "matchesPartly u [''name'', ''title''] ''Event Name''"
  "\<not> matchesPartly u [''name'', ''title''] ''Notes''"
  by code_simp+

text \<open>
  In the example exactly one header matches in the deciding loop, so the result is
  the same for every loop order.
\<close>

lemma filter_unique:
  assumes "distinct ks" "k \<in> set ks" "P k" "\<forall>k' \<in> set ks. P k' \<longrightarrow> k' = k"
  shows "filter P ks = [k]"
  using assms
proof (induction ks)
  case Nil
  then show ?case by simp
next
  case (Cons a ks)
  show ?case
  proof (cases "a = k")
    case True
    from Cons.prems(1) True have nk: "k \<notin> set ks" by simp
    have "\<forall>x \<in> set ks. \<not> P x"
      using Cons.prems(4) nk by (metis list.set_intros(2))
    then have "filter P ks = []" by (simp add: filter_empty_conv)
    with True Cons.prems(3) show ?thesis by simp
  next
    case False
    from Cons.prems(4) False have na: "\<not> P a" by (metis list.set_intros(1))
    from Cons.prems(1) have d: "distinct ks" by simp
    from Cons.prems(2) False have m: "k \<in> set ks" by simp
    from Cons.prems(4) have u: "\<forall>k' \<in> set ks. P k' \<longrightarrow> k' = k"
      by (metis list.set_intros(2))
    from Cons.IH [OF d m Cons.prems(3) u] na show ?thesis by simp
  qed
qed

lemma example_any_order:
  assumes "m = [''Event Name'' \<mapsto> title, ''When'' \<mapsto> date, ''Notes'' \<mapsto> notes]"
    and "ExportDateProperty (exportConfig s) = []"
    and "rangeOf m (fst (dateOrder ord))" and "rangeOf m (snd (dateOrder ord))"
    and "rangeOf m (fst (titleOrder ord))" and "rangeOf m (snd (titleOrder ord))"
  shows "dateColumn u s ord m = Inr (''When'', date)"
    and "titleColumn u ord m = Inr (''Event Name'', title)"
proof -
  have d: "dom m = {''Event Name'', ''When'', ''Notes''}" using assms(1) by auto
  have e: "filter (matchesExactly u [''date'', ''when'', ''period'']) ks = [''When'']"
    if r: "rangeOf m ks" for ks
  proof (rule filter_unique)
    from r show "distinct ks" by (simp add: rangeOf_def)
    from r d show "''When'' \<in> set ks" by (simp add: rangeOf_def)
    show "matchesExactly u [''date'', ''when'', ''period''] ''When''" by (rule match_examples)
    from r d have "set ks = {''Event Name'', ''When'', ''Notes''}" by (simp add: rangeOf_def)
    then show "\<forall>k' \<in> set ks. matchesExactly u [''date'', ''when'', ''period''] k' \<longrightarrow> k' = ''When''"
      using match_examples(2,3) [of u] by simp
  qed
  have n: "filter (matchesExactly u [''name'', ''title'']) ks = []"
    if r: "rangeOf m ks" for ks
  proof -
    from r d have "set ks = {''Event Name'', ''When'', ''Notes''}" by (simp add: rangeOf_def)
    then have "\<forall>x \<in> set ks. \<not> matchesExactly u [''name'', ''title''] x"
      using match_examples(4,5,6) [of u] by simp
    then show ?thesis by (simp add: filter_empty_conv)
  qed
  have p: "filter (matchesPartly u [''name'', ''title'']) ks = [''Event Name'']"
    if r: "rangeOf m ks" for ks
  proof (rule filter_unique)
    from r show "distinct ks" by (simp add: rangeOf_def)
    from r d show "''Event Name'' \<in> set ks" by (simp add: rangeOf_def)
    show "matchesPartly u [''name'', ''title''] ''Event Name''" by (rule match_examples)
    from r d have "set ks = {''Event Name'', ''When'', ''Notes''}" by (simp add: rangeOf_def)
    then show "\<forall>k' \<in> set ks. matchesPartly u [''name'', ''title''] k' \<longrightarrow> k' = ''Event Name''"
      using match_examples(7,9) [of u] by simp
  qed
  from dateColumn_filter [OF assms(2,3,4), of u] e [OF assms(3)] assms(1)
  show "dateColumn u s ord m = Inr (''When'', date)"
    by (simp add: firstOf_def)
  from titleColumn_filter [OF assms(5,6), of u] n [OF assms(5)] p [OF assms(6)] assms(1)
  show "titleColumn u ord m = Inr (''Event Name'', title)"
    by (simp add: firstOf_def)
qed

subsection \<open>One row\<close>

lemma propertiesOf_filter:
  "length headers = length row \<Longrightarrow>
     propertiesOf dk tk headers row =
       map (\<lambda>(k, v). exportProperty k v)
         (filter (\<lambda>(k, v). k \<noteq> dk \<and> k \<noteq> tk) (zip headers row))"
  by (induction dk tk headers row rule: propertiesOf.induct) auto

lemma eventFromCSVRow_Inr:
  assumes "eventFromCSVRow u s ord headers row = Inr e"
  obtains m dateKey date titleKey title dateBytes where
    "headersAndRecordToMap headers row = Inr m"
    "dateColumn u s ord m = Inr (dateKey, date)"
    "parseNotionDateRange date (Zone (exportConfig s)) = Inr (Start e, End e)"
    "titleColumn u ord m = Inr (titleKey, title)"
    "MarshalText (Start e) = Inr dateBytes"
    "e = \<lparr>ID = eventID title dateBytes, Title = title, Emoji = [], URL = [],
          Start = Start e, End = End e, Content = [],
          Properties = propertiesOf dateKey titleKey headers row\<rparr>"
  using assms
  by (auto simp: eventFromCSVRow_def split: sum.splits prod.splits)

lemma eventFromCSVRow_Properties:
  assumes "eventFromCSVRow u s ord headers row = Inr e"
  shows "\<exists>m dateKey date titleKey title.
     headersAndRecordToMap headers row = Inr m
     \<and> dateColumn u s ord m = Inr (dateKey, date)
     \<and> titleColumn u ord m = Inr (titleKey, title)
     \<and> Properties e =
         map (\<lambda>(k, v). exportProperty k v)
           (filter (\<lambda>(k, v). k \<noteq> dateKey \<and> k \<noteq> titleKey) (zip headers row))"
proof -
  from assms obtain m dateKey date titleKey title dateBytes where
    m: "headersAndRecordToMap headers row = Inr m"
    and d: "dateColumn u s ord m = Inr (dateKey, date)"
    and t: "titleColumn u ord m = Inr (titleKey, title)"
    and e: "e = \<lparr>ID = eventID title dateBytes, Title = title, Emoji = [], URL = [],
          Start = Start e, End = End e, Content = [],
          Properties = propertiesOf dateKey titleKey headers row\<rparr>"
    by (rule eventFromCSVRow_Inr)
  from m have l: "length headers = length row"
    by (auto simp: headersAndRecordToMap_def split: if_splits)
  from e have "Properties e = propertiesOf dateKey titleKey headers row"
    by (metis Event.select_convs(8))
  with propertiesOf_filter [OF l, of dateKey titleKey, where ?'a = 'a] m d t show ?thesis by auto
qed


lemma noon_parse:
  "parseNotionDateRange ''2023/01/02 12:00'' UTC = Inr (noon, noon)"
  "parseNotionDateRange ''January 2, 2023 12:00 PM'' UTC = Inr (noon, noon)"
  "MarshalText noon = Inr ''2023-01-02T12:00:00Z''"
  by code_simp+

lemma lower_more:
  "ToLower u ''Name'' = ''name''" "ToLower u ''Place'' = ''place''"
  "ToLower u ''Title'' = ''title''" "ToLower u ''Hide'' = ''hide''"
  by code_simp+

lemmas row_eval =
  eventFromCSVRow_def headersAndRecordToMap_def dateColumn_def titleColumn_def
  findFirstColumn_def exampleExport_def inOrder_def Contains_def
  lower_examples lower_more ToLower_names noon_parse

lemma firstOf_None: "firstOf P m ks = None \<Longrightarrow> \<forall>k \<in> set ks. \<not> P k"
  by (auto simp: firstOf_def filter_empty_conv split: list.splits)

lemma resolved_first:
  assumes "rangeOf m ks1" "rangeOf m ks2"
  shows "resolved u names m
     (case firstOf (matchesExactly u names) m ks1 of
        Some kv \<Rightarrow> Some kv
      | None \<Rightarrow> firstOf (matchesPartly u names) m ks2)"
proof (cases "firstOf (matchesExactly u names) m ks1")
  case (Some kv)
  obtain k v where kv: "kv = (k, v)" by (cases kv)
  from firstOf_key [OF Some [unfolded kv]] have e: "matchesExactly u names k" "k \<in> set ks1"
    "v = the (m k)" by simp_all
  from e(2) assms(1) have "k \<in> dom m" by (simp add: rangeOf_def)
  with e(3) have "m k = Some v" by auto
  with e(1) \<open>k \<in> dom m\<close> Some kv show ?thesis by (auto simp: resolved_def)
next
  case None
  from firstOf_None [OF None] assms(1) have n: "\<forall>k \<in> dom m. \<not> matchesExactly u names k"
    by (simp add: rangeOf_def)
  show ?thesis
  proof (cases "firstOf (matchesPartly u names) m ks2")
    case n2: None
    from firstOf_None [OF n2] assms(2) have "\<forall>k \<in> dom m. \<not> matchesPartly u names k"
      by (simp add: rangeOf_def)
    with n None n2 show ?thesis by (auto simp: resolved_def)
  next
    case (Some kv)
    obtain k v where kv: "kv = (k, v)" by (cases kv)
    from firstOf_key [OF Some [unfolded kv]] have e: "matchesPartly u names k" "k \<in> set ks2"
      "v = the (m k)" by simp_all
    from e(2) assms(2) have "k \<in> dom m" by (simp add: rangeOf_def)
    with e(3) have "m k = Some v" by auto
    with e(1) n None Some kv show ?thesis by (auto simp: resolved_def)
  qed
qed

lemma dateColumn_resolved:
  assumes "ExportDateProperty (exportConfig s) = []"
    and "rangeOf m (fst (dateOrder ord))" "rangeOf m (snd (dateOrder ord))"
  shows "case dateColumn u s ord m of
           Inr kv \<Rightarrow> resolved u [''date'', ''when'', ''period''] m (Some kv)
         | Inl err \<Rightarrow> err = ErrNoDateProperty \<and> resolved u [''date'', ''when'', ''period''] m None"
  using resolved_first [OF assms(2,3), of u "[''date'', ''when'', ''period'']"]
  unfolding dateColumn_filter [OF assms]
  by (auto split: option.splits)

lemma titleColumn_resolved:
  assumes "rangeOf m (fst (titleOrder ord))" "rangeOf m (snd (titleOrder ord))"
  shows "case titleColumn u ord m of
           Inr kv \<Rightarrow> resolved u [''name'', ''title''] m (Some kv)
         | Inl err \<Rightarrow> err = ErrNoTitleProperty \<and> resolved u [''name'', ''title''] m None"
  using resolved_first [OF assms, of u "[''name'', ''title'']"]
  unfolding titleColumn_filter [OF assms]
  by (auto split: option.splits)

lemma example_row:
  assumes "m = [''Event Name'' \<mapsto> title, ''When'' \<mapsto> date, ''Notes'' \<mapsto> notes]"
    and "ExportDateProperty (exportConfig s) = []"
    and "rangeOf m (fst (dateOrder ord))" and "rangeOf m (snd (dateOrder ord))"
    and "rangeOf m (fst (titleOrder ord))" and "rangeOf m (snd (titleOrder ord))"
    and "eventFromCSVRow u s ord [''Event Name'', ''When'', ''Notes''] [title, date, notes] = Inr e"
  shows "Title e = title \<and> Properties e = [exportProperty ''Notes'' notes]"
proof -
  from assms(7) obtain m' dateKey date' titleKey title' dateBytes where
    m: "headersAndRecordToMap [''Event Name'', ''When'', ''Notes''] [title, date, notes] = Inr m'"
    and d: "dateColumn u s ord m' = Inr (dateKey, date')"
    and t: "titleColumn u ord m' = Inr (titleKey, title')"
    and e: "e = \<lparr>ID = eventID title' dateBytes, Title = title', Emoji = [], URL = [],
          Start = Start e, End = End e, Content = [],
          Properties = propertiesOf dateKey titleKey [''Event Name'', ''When'', ''Notes''] [title, date, notes]\<rparr>"
    by (rule eventFromCSVRow_Inr)
  from m assms(1) have mm: "m' = m" by (simp add: headersAndRecordToMap_def)
  from d t example_any_order [OF assms(1-6), of u] mm
  have k: "dateKey = ''When''" "titleKey = ''Event Name''" "title' = title" by simp_all
  from e have "Title e = title'"
    "Properties e = propertiesOf dateKey titleKey [''Event Name'', ''When'', ''Notes''] [title, date, notes]"
    by (metis Event.select_convs(2), metis Event.select_convs(8))
  with k show ?thesis by simp
qed

text \<open>
  Claim C4, as amended. With no date column configured, and whatever the orders in
  which the four loops visit the row's map: the date column is a column whose key
  matches one of date, when, period exactly (lower-case forms equal) when some key of
  the row does; otherwise it is one whose key contains one of them; and when no key
  matches either way the result is the error "no date property". The title column is
  found the same way among name, title, with the error "no title property". The names
  have no preference among themselves. For a row with the columns "Event Name",
  "When" and "Notes" the date column is "When", the title column is "Event Name", and
  the event of the row has the cell of "Event Name" as its title and the "Notes"
  column as its only property.
\<close>

theorem column_resolution:
  assumes "ExportDateProperty (exportConfig s) = []"
    and "rangeOf m (fst (dateOrder ord))" and "rangeOf m (snd (dateOrder ord))"
    and "rangeOf m (fst (titleOrder ord))" and "rangeOf m (snd (titleOrder ord))"
  shows "(case dateColumn u s ord m of
            Inr kv \<Rightarrow> resolved u [''date'', ''when'', ''period''] m (Some kv)
          | Inl err \<Rightarrow> err = ErrNoDateProperty \<and> resolved u [''date'', ''when'', ''period''] m None)
   \<and> (case titleColumn u ord m of
         Inr kv \<Rightarrow> resolved u [''name'', ''title''] m (Some kv)
       | Inl err \<Rightarrow> err = ErrNoTitleProperty \<and> resolved u [''name'', ''title''] m None)
   \<and> (m = [''Event Name'' \<mapsto> titleCell, ''When'' \<mapsto> dateCell, ''Notes'' \<mapsto> notesCell] \<longrightarrow>
        dateColumn u s ord m = Inr (''When'', dateCell)
        \<and> titleColumn u ord m = Inr (''Event Name'', titleCell)
        \<and> (\<forall>e. eventFromCSVRow u s ord [''Event Name'', ''When'', ''Notes''] [titleCell, dateCell, notesCell]
                  = Inr (e :: 'v Event) \<longrightarrow>
               Title e = titleCell \<and> Properties e = [exportProperty ''Notes'' notesCell]))"
proof (intro conjI impI allI)
  show "case dateColumn u s ord m of
            Inr kv \<Rightarrow> resolved u [''date'', ''when'', ''period''] m (Some kv)
          | Inl err \<Rightarrow> err = ErrNoDateProperty \<and> resolved u [''date'', ''when'', ''period''] m None"
    by (rule dateColumn_resolved [OF assms(1,2,3)])
  show "case titleColumn u ord m of
         Inr kv \<Rightarrow> resolved u [''name'', ''title''] m (Some kv)
       | Inl err \<Rightarrow> err = ErrNoTitleProperty \<and> resolved u [''name'', ''title''] m None"
    by (rule titleColumn_resolved [OF assms(4,5)])
next
  assume a: "m = [''Event Name'' \<mapsto> titleCell, ''When'' \<mapsto> dateCell, ''Notes'' \<mapsto> notesCell]"
  show "dateColumn u s ord m = Inr (''When'', dateCell)"
    by (rule example_any_order(1) [OF a assms])
  show "titleColumn u ord m = Inr (''Event Name'', titleCell)"
    by (rule example_any_order(2) [OF a assms])
  show "Title e = titleCell" "Properties e = [exportProperty ''Notes'' notesCell]"
    if "eventFromCSVRow u s ord [''Event Name'', ''When'', ''Notes''] [titleCell, dateCell, notesCell] = Inr e"
    for e :: "'v Event"
    using example_row [OF a assms that] by simp_all
qed

text \<open>
  The headers of the specification's example, the loops visiting the keys from the
  last to the first: the date column is "When" (an exact match), the title column is
  "Event Name" (it contains "name"), and the properties are the "Notes" column.
\<close>

theorem column_resolution_witness:
  "dateColumn (\<lambda>s. s) (exampleExport [] []) (inOrder [''Notes'', ''When'', ''Event Name''])
      [''Event Name'' \<mapsto> ''Lunch'', ''When'' \<mapsto> ''2023/01/02 12:00'', ''Notes'' \<mapsto> ''cash'']
     = Inr (''When'', ''2023/01/02 12:00'')
   \<and> titleColumn (\<lambda>s. s) (inOrder [''Notes'', ''When'', ''Event Name''])
      [''Event Name'' \<mapsto> ''Lunch'', ''When'' \<mapsto> ''2023/01/02 12:00'', ''Notes'' \<mapsto> ''cash'']
     = Inr (''Event Name'', ''Lunch'')
   \<and> resolved (\<lambda>s. s) [''date'', ''when'', ''period'']
        [''Event Name'' \<mapsto> ''Lunch'', ''When'' \<mapsto> ''2023/01/02 12:00'', ''Notes'' \<mapsto> ''cash'']
        (Some (''When'', ''2023/01/02 12:00''))
   \<and> resolved (\<lambda>s. s) [''name'', ''title'']
        [''Event Name'' \<mapsto> ''Lunch'', ''When'' \<mapsto> ''2023/01/02 12:00'', ''Notes'' \<mapsto> ''cash'']
        (Some (''Event Name'', ''Lunch''))
   \<and> eventFromCSVRow (\<lambda>s. s) (exampleExport [] []) (inOrder [''Notes'', ''When'', ''Event Name''])
        [''Event Name'', ''When'', ''Notes''] [''Lunch'', ''2023/01/02 12:00'', ''cash'']
      = Inr \<lparr>ID = eventID ''Lunch'' ''2023-01-02T12:00:00Z'', Title = ''Lunch'', Emoji = [],
             URL = [], Start = noon, End = noon, Content = [],
             Properties = [exportProperty ''Notes'' ''cash'' :: unit EventProperty]\<rparr>"
proof -
  let ?m = "[''Event Name'' \<mapsto> ''Lunch'', ''When'' \<mapsto> ''2023/01/02 12:00'', ''Notes'' \<mapsto> ''cash'']"
  let ?ks = "[''Notes'', ''When'', ''Event Name'']"
  let ?e = "\<lparr>ID = eventID ''Lunch'' ''2023-01-02T12:00:00Z'', Title = ''Lunch'', Emoji = [],
             URL = [], Start = noon, End = noon, Content = [],
             Properties = [exportProperty ''Notes'' ''cash'' :: unit EventProperty]\<rparr>"
  have r: "rangeOf ?m ?ks" by (auto simp: rangeOf_def)
  have c: "ExportDateProperty (exportConfig (exampleExport [] [])) = []"
    by (simp add: exampleExport_def)
  have o: "fst (dateOrder (inOrder ?ks)) = ?ks" "snd (dateOrder (inOrder ?ks)) = ?ks"
    "fst (titleOrder (inOrder ?ks)) = ?ks" "snd (titleOrder (inOrder ?ks)) = ?ks"
    by (simp_all add: inOrder_def)
  have ev: "eventFromCSVRow (\<lambda>s. s) (exampleExport [] []) (inOrder ?ks)
        [''Event Name'', ''When'', ''Notes''] [''Lunch'', ''2023/01/02 12:00'', ''cash'']
      = Inr ?e"
    by (simp add: row_eval)
  note t = column_resolution [where s = "exampleExport [] []" and m = ?m and ord = "inOrder ?ks"
      and u = "\<lambda>s. s" and titleCell = "''Lunch''" and dateCell = "''2023/01/02 12:00''"
      and notesCell = "''cash''", unfolded o, OF c r r r r]
  note x = t [THEN conjunct2, THEN conjunct2, rule_format, OF refl]
  note d = x [THEN conjunct1]
  note ti = x [THEN conjunct2, THEN conjunct1]
  from t [THEN conjunct1] have rd: "resolved (\<lambda>s. s) [''date'', ''when'', ''period''] ?m
      (Some (''When'', ''2023/01/02 12:00''))" unfolding d by simp
  from t [THEN conjunct2, THEN conjunct1]
  have rt: "resolved (\<lambda>s. s) [''name'', ''title''] ?m (Some (''Event Name'', ''Lunch''))"
    unfolding ti by simp
  from d ti rd rt ev show ?thesis by (intro conjI)
qed

text \<open>
  Claim C4 as stated fails: "date" comes before "period" in the list of names, but a
  row with the columns "Period" and "Date" resolves to "Period" when the loop visits
  that key first, and to "Date" when it visits that one first. Each loop of
  \<^verbatim>\<open>findFirstColumn\<close> stops at the first key it meets that matches any of the names,
  and Go leaves the order of a loop over a map open.
\<close>

theorem column_resolution_no_preference:
  "dateColumn (\<lambda>s. s) (exampleExport [] []) (inOrder [''Period'', ''Date''])
      [''Period'' \<mapsto> ''2023/01/05 10:00'', ''Date'' \<mapsto> ''2023/01/02 10:00'']
     = Inr (''Period'', ''2023/01/05 10:00'')
   \<and> dateColumn (\<lambda>s. s) (exampleExport [] []) (inOrder [''Date'', ''Period''])
      [''Period'' \<mapsto> ''2023/01/05 10:00'', ''Date'' \<mapsto> ''2023/01/02 10:00'']
     = Inr (''Date'', ''2023/01/02 10:00'')"
  by (simp add: dateColumn_def exampleExport_def inOrder_def findFirstColumn_def
      lower_examples ToLower_names)

lemma row_A:
  "eventFromCSVRow (\<lambda>s. s) (exampleExport [] []) (inOrder [''Name'', ''Date'', ''Notes''])
      [''Name'', ''Date'', ''Notes''] [''Lunch'', ''2023/01/02 12:00'', ''cash'']
   = Inr \<lparr>ID = eventID ''Lunch'' ''2023-01-02T12:00:00Z'', Title = ''Lunch'', Emoji = [],
          URL = [], Start = noon, End = noon, Content = [],
          Properties = [exportProperty ''Notes'' ''cash'' :: unit EventProperty]\<rparr>"
  by (simp add: row_eval)




subsection \<open>The hide property\<close>

lemma eventFromCSVRow_hide:
  "eventFromCSVRow u (s\<lparr>exportConfig := (exportConfig s)\<lparr>ExportHideProperty := h\<rparr>\<rparr>) ord headers row
     = eventFromCSVRow u s ord headers row"
proof -
  have "dateColumn u (s\<lparr>exportConfig := (exportConfig s)\<lparr>ExportHideProperty := h\<rparr>\<rparr>) ord m
      = dateColumn u s ord m" for m
    by (simp add: dateColumn_def split: option.splits)
  then show ?thesis
    by (simp add: eventFromCSVRow_def split: sum.splits prod.splits)
qed

lemma readRows_hide:
  "readRows u (s\<lparr>exportConfig := (exportConfig s)\<lparr>ExportHideProperty := h\<rparr>\<rparr>) ords headers i reads events
     = readRows u s ords headers i reads events"
proof (induction reads arbitrary: i events)
  case Nil
  then show ?case by simp
next
  case (Cons r reads)
  then show ?case
    by (cases r) (simp_all add: eventFromCSVRow_hide split: sum.splits)
qed

lemma ReadAll_hide:
  "ReadAll u ords (s\<lparr>exportConfig := (exportConfig s)\<lparr>ExportHideProperty := h\<rparr>\<rparr>) = ReadAll u ords s"
  by (simp add: ReadAll_def readRows_hide split: option.splits list.splits csvRead.splits)

lemma row_hide:
  "eventFromCSVRow (\<lambda>s. s)
      \<lparr>exportConfig = \<lparr>Archive = Zip hideArchive, Zone = UTC, ExportDateProperty = [],
                        ExportHideProperty = []\<rparr>,
        exportArchive = hideArchive, exportName = ''Events.csv''\<rparr>
      (inOrder [''Name'', ''Date'', ''Hide''])
      [''Name'', ''Date'', ''Hide''] [''Lunch'', ''2023/01/02 12:00'', ''Yes'']
   = Inr \<lparr>ID = eventID ''Lunch'' ''2023-01-02T12:00:00Z'', Title = ''Lunch'', Emoji = [],
          URL = [], Start = noon, End = noon, Content = [],
          Properties = [exportProperty ''Hide'' ''Yes'' :: unit EventProperty]\<rparr>"
  by (simp add: row_eval)

text \<open>
  Claim C10. Two configurations that differ only in the hide property give the same
  result: both constructions fail alike, or both sources read the same list of events
  (or fail with the same error).
\<close>

theorem snapshot_ignores_hide:
  "(case NewSourceExport (cfg\<lparr>ExportHideProperty := h\<rparr>) of
      Inl err \<Rightarrow> Inl err | Inr s \<Rightarrow> ReadAll u ords s)
   = (case NewSourceExport cfg of Inl err \<Rightarrow> Inl err | Inr s \<Rightarrow> ReadAll u ords s)"
proof (cases "NewSourceExport cfg")
  case (Inl err)
  then have "NewSourceExport (cfg\<lparr>ExportHideProperty := h\<rparr>) = Inl err"
    by (auto simp: NewSourceExport_def Let_def split: Archive.splits if_splits)
  with Inl show ?thesis by simp
next
  case (Inr s)
  then have "NewSourceExport (cfg\<lparr>ExportHideProperty := h\<rparr>)
      = Inr (s\<lparr>exportConfig := (exportConfig s)\<lparr>ExportHideProperty := h\<rparr>\<rparr>)"
    by (auto simp: NewSourceExport_def Let_def split: Archive.splits if_splits)
  with Inr show ?thesis by (simp add: ReadAll_hide)
qed

theorem snapshot_ignores_hide_witness:
  "(case NewSourceExport \<lparr>Archive = Zip hideArchive, Zone = UTC, ExportDateProperty = [],
                          ExportHideProperty = ''Hide''\<rparr> of
      Inl err \<Rightarrow> Inl err
    | Inr s \<Rightarrow> ReadAll (\<lambda>s. s) (\<lambda>i. inOrder [''Name'', ''Date'', ''Hide'']) s)
   = Inr [\<lparr>ID = eventID ''Lunch'' ''2023-01-02T12:00:00Z'', Title = ''Lunch'', Emoji = [],
           URL = [], Start = noon, End = noon, Content = [],
           Properties = [exportProperty ''Hide'' ''Yes'' :: unit EventProperty]\<rparr>]"
proof -
  let ?cfg = "\<lparr>Archive = Zip hideArchive, Zone = UTC, ExportDateProperty = [],
                ExportHideProperty = []\<rparr>"
  have n: "NewSourceExport ?cfg
      = Inr \<lparr>exportConfig = ?cfg, exportArchive = hideArchive, exportName = ''Events.csv''\<rparr>"
    by (simp add: NewSourceExport_def hideArchive_def HasSuffix_def suffix_def Let_def)
  have r: "ReadAll (\<lambda>s. s) (\<lambda>i. inOrder [''Name'', ''Date'', ''Hide''])
      \<lparr>exportConfig = ?cfg, exportArchive = hideArchive, exportName = ''Events.csv''\<rparr>
    = Inr [\<lparr>ID = eventID ''Lunch'' ''2023-01-02T12:00:00Z'', Title = ''Lunch'', Emoji = [],
           URL = [], Start = noon, End = noon, Content = [],
           Properties = [exportProperty ''Hide'' ''Yes'' :: unit EventProperty]\<rparr>]"
    using row_hide by (simp add: ReadAll_def hideArchive_def)
  from snapshot_ignores_hide [where cfg = ?cfg and h = "''Hide''" and u = "\<lambda>s. s"
      and ords = "\<lambda>i. inOrder [''Name'', ''Date'', ''Hide'']" and ?'a = unit]
    n r show ?thesis by simp
qed

section \<open>Verification: the content of a page\<close>

subsection \<open>Enough steps\<close>

text \<open>A run that ended within an allowance ends the same way within a larger one.\<close>

lemma andThen_simps [simp]:
  "andThen None f = None"
  "andThen (Some (Inl err)) f = Some (Inl err)"
  "andThen (Some (Inr x)) f = f x"
  by (simp_all add: andThen_def)

lemma andThen_Some: "andThen r f = Some z \<Longrightarrow> \<exists>y. r = Some y"
  by (cases r) auto

lemma andThen_Inr: "andThen r f = Some (Inr z) \<Longrightarrow> \<exists>y. r = Some (Inr y) \<and> f y = Some (Inr z)"
  by (cases r) (auto simp: andThen_def split: sum.splits)

lemma fuel_Suc:
  "(\<forall>bid query r. pagesFrom n client bid query = Some r \<longrightarrow> pagesFrom (Suc n) client bid query = Some r)
   \<and> (\<forall>blocks r. blocksContent n client blocks = Some r \<longrightarrow> blocksContent (Suc n) client blocks = Some r)"
proof (induction n)
  case 0
  then show ?case by simp
next
  case (Suc n)
  from Suc have ih1: "pagesFrom (Suc n) client bid query = Some r"
    if "pagesFrom n client bid query = Some r" for bid query r
    using that by blast
  from Suc have ih2: "blocksContent (Suc n) client blocks = Some r"
    if "blocksContent n client blocks = Some r" for blocks r
    using that by blast
  have p: "pagesFrom (Suc (Suc n)) client bid query = Some r"
    if a: "pagesFrom (Suc n) client bid query = Some r" for bid query r
  proof (cases "FindBlockChildrenByID client bid query")
    case (Inl err)
    with a show ?thesis by simp
  next
    case (Inr response)
    with a obtain y where y: "blocksContent n client (Results response) = Some y"
      by (auto dest: andThen_Some)
    note y' = ih2 [OF y]
    show ?thesis
    proof (cases y)
      case (Inl err)
      from a Inr y Inl have "r = Inl err" by simp
      with Inr y' Inl show ?thesis by simp
    next
      case content: (Inr content)
      show ?thesis
      proof (cases "HasMore response")
        case False
        from a Inr y content False have "r = Inr content" by simp
        with Inr y' content False show ?thesis by simp
      next
        case True
        show ?thesis
        proof (cases "NextCursor response")
          case None
          from a Inr y content True None have "r = Inl PanicNilPointer" by simp
          with Inr y' content True None show ?thesis by simp
        next
          case (Some cursor)
          with a Inr y content True obtain z where
            z: "pagesFrom n client bid (query\<lparr>StartCursor := cursor\<rparr>) = Some z"
            by (auto dest: andThen_Some)
          note z' = ih1 [OF z]
          from a Inr y content True Some z
          have "andThen (Some z) (\<lambda>more. Some (Inr (content @ more))) = Some r" by simp
          with Inr y' content True Some z' show ?thesis by simp
        qed
      qed
    qed
  qed
  have b: "blocksContent (Suc (Suc n)) client blocks = Some r"
    if a: "blocksContent (Suc n) client blocks = Some r" for blocks r
  proof (cases blocks)
    case Nil
    with a show ?thesis by simp
  next
    case (Cons block rest)
    define c where "c = (if BlockHasChildren block
        then pagesFrom n client (BlockID block) firstQuery else Some (Inr []))"
    define c' where "c' = (if BlockHasChildren block
        then pagesFrom (Suc n) client (BlockID block) firstQuery else Some (Inr []))"
    from a Cons obtain cv where cv: "c = Some cv"
      unfolding c_def by (auto dest: andThen_Some)
    have cv': "c' = Some cv"
    proof (cases "BlockHasChildren block")
      case True
      with cv have "pagesFrom n client (BlockID block) firstQuery = Some cv"
        by (simp add: c_def)
      from ih1 [OF this] True show ?thesis
        by (simp only: c'_def if_True)
    next
      case False
      with cv show ?thesis by (simp add: c_def c'_def)
    qed
    show ?thesis
    proof (cases cv)
      case (Inl err)
      from a Cons cv Inl have "r = Inl err" by (simp add: c_def [symmetric])
      with Cons cv' Inl show ?thesis by (simp add: c'_def [symmetric])
    next
      case (Inr cs)
      with a Cons cv obtain y where y: "blocksContent n client rest = Some y"
        by (auto simp: c_def [symmetric] dest: andThen_Some)
      note y' = ih2 [OF y]
      from a Cons cv Inr y
      have "andThen (Some y)
          (\<lambda>content. Some (Inr (convertBlockContentPlain block # cs @ content))) = Some r"
        by (simp add: c_def [symmetric])
      with Cons cv' Inr y' show ?thesis by (simp add: c'_def [symmetric])
    qed
  qed
  from p b show ?case by blast
qed

lemma pagesFrom_mono:
  assumes "n \<le> k" and "pagesFrom n client bid query = Some r"
  shows "pagesFrom k client bid query = Some r"
  using assms
proof (induction rule: dec_induct)
  case base
  then show ?case .
next
  case (step k)
  then have "pagesFrom k client bid query = Some r" by simp
  with fuel_Suc [of k client] show ?case by blast
qed

lemma blocksContent_mono:
  assumes "n \<le> k" and "blocksContent n client blocks = Some r"
  shows "blocksContent k client blocks = Some r"
  using assms
proof (induction rule: dec_induct)
  case base
  then show ?case .
next
  case (step k)
  then have "blocksContent k client blocks = Some r" by simp
  with fuel_Suc [of k client] show ?case by blast
qed

subsection \<open>The lines of a tree\<close>

lemma blocks_ok:
  "list_all2 (served client) blocks ts
     \<Longrightarrow> \<exists>n. \<forall>k\<ge>n. blocksContent k client blocks = Some (Inr (concat (map preorder ts)))"
proof (induction rule: list_all2_induct)
  case Nil
  have "\<forall>k\<ge>1. blocksContent k client [] = Some (Inr (concat (map preorder [])))"
  proof (intro allI impI)
    fix k :: nat assume "1 \<le> k"
    then obtain j where "k = Suc j" by (cases k) auto
    then show "blocksContent k client [] = Some (Inr (concat (map preorder [])))" by simp
  qed
  then show ?case by blast
next
  case (Cons block blocks t ts)
  from Cons.hyps(1) obtain n1 where r: "root t = block"
    and n1: "\<forall>k\<ge>n1. kids k client block = Some (Inr (concat (map preorder (children t))))"
    by (auto simp: served_def)
  from Cons.IH obtain n2 where
    n2: "\<forall>k\<ge>n2. blocksContent k client blocks = Some (Inr (concat (map preorder ts)))"
    by blast
  have "\<forall>k\<ge>Suc (max n1 n2).
      blocksContent k client (block # blocks) = Some (Inr (concat (map preorder (t # ts))))"
  proof (intro allI impI)
    fix k assume "Suc (max n1 n2) \<le> k"
    then obtain j where k: "k = Suc j" and j: "n1 \<le> j" "n2 \<le> j" by (cases k) auto
    from n1 j have a: "kids j client block = Some (Inr (concat (map preorder (children t))))"
      by simp
    from n2 j have b: "blocksContent j client blocks = Some (Inr (concat (map preorder ts)))"
      by simp
    from r have p: "preorder t = convertBlockContentPlain block # concat (map preorder (children t))"
      by (cases t) auto
    from a b show "blocksContent k client (block # blocks)
        = Some (Inr (concat (map preorder (t # ts))))"
      unfolding k by (simp add: kids_def p)
  qed
  then show ?case by blast
qed

lemma pages_ok:
  "pagesOf client bid query blocks \<Longrightarrow> list_all2 (served client) blocks ts
     \<Longrightarrow> \<exists>n. \<forall>k\<ge>n. pagesFrom k client bid query = Some (Inr (concat (map preorder ts)))"
proof (induction arbitrary: ts rule: pagesOf.induct)
  case (lastPage query response)
  from blocks_ok [OF lastPage.prems] obtain n1 where
    n1: "\<forall>k\<ge>n1. blocksContent k client (Results response)
        = Some (Inr (concat (map preorder ts)))" by blast
  have "\<forall>k\<ge>Suc n1. pagesFrom k client bid query = Some (Inr (concat (map preorder ts)))"
  proof (intro allI impI)
    fix k assume "Suc n1 \<le> k"
    then obtain j where k: "k = Suc j" and j: "n1 \<le> j" by (cases k) auto
    from n1 j have "blocksContent j client (Results response)
        = Some (Inr (concat (map preorder ts)))" by simp
    with lastPage.hyps show "pagesFrom k client bid query = Some (Inr (concat (map preorder ts)))"
      unfolding k by simp
  qed
  then show ?case by blast
next
  case (nextPage query response cursor blocks)
  from nextPage.prems obtain ts1 ts2 where ts: "ts = ts1 @ ts2"
    and l1: "list_all2 (served client) (Results response) ts1"
    and l2: "list_all2 (served client) blocks ts2"
    by (auto simp: list_all2_append1)
  from blocks_ok [OF l1] obtain n1 where
    n1: "\<forall>k\<ge>n1. blocksContent k client (Results response)
        = Some (Inr (concat (map preorder ts1)))" by blast
  from nextPage.IH [OF l2] obtain n2 where
    n2: "\<forall>k\<ge>n2. pagesFrom k client bid (query\<lparr>StartCursor := cursor\<rparr>)
        = Some (Inr (concat (map preorder ts2)))" by blast
  have "\<forall>k\<ge>Suc (max n1 n2).
      pagesFrom k client bid query = Some (Inr (concat (map preorder ts)))"
  proof (intro allI impI)
    fix k assume "Suc (max n1 n2) \<le> k"
    then obtain j where k: "k = Suc j" and j: "n1 \<le> j" "n2 \<le> j" by (cases k) auto
    from n1 j have a: "blocksContent j client (Results response)
        = Some (Inr (concat (map preorder ts1)))" by simp
    from n2 j have b: "pagesFrom j client bid (query\<lparr>StartCursor := cursor\<rparr>)
        = Some (Inr (concat (map preorder ts2)))" by simp
    from nextPage.hyps(1,2,3) a b ts
    show "pagesFrom k client bid query = Some (Inr (concat (map preorder ts)))"
      unfolding k by simp
  qed
  then show ?case by blast
qed

lemma subtree_served: "subtree client block t \<Longrightarrow> served client block t"
proof (induction rule: subtree.induct)
  case (leaf block)
  then show ?case by (simp add: served_def kids_def)
next
  case (inner block blocks ts)
  from inner.IH have "list_all2 (served client) blocks ts"
    by (rule list_all2_mono) simp
  from pages_ok [OF inner.hyps(2) this] inner.hyps(1) show ?case
    by (simp add: served_def kids_def)
qed

text \<open>
  The tree of the specification's example, with the children on two pages: a heading
  "Intro" with a paragraph and two bullet items below it.
\<close>

lemma intro_lines:
  "getPageContentPlain 5 exampleClient ''page'' = Some (Inr [''# Intro'', ''hi'', ''- a'', ''- b''])"
  by code_simp

text \<open>
  Claim C6, as amended. Let the service answer the request for a block, and let it
  list, page after page, the children of that block and of every block below it that
  has children: a tree. Then with enough steps allowed the lines below the root are
  the lines of the children's subtrees in pre-order: the line of a block, then the
  lines of its children's subtrees, the children in the order of the pages. Every
  block below the root contributes its line, a child page as well (its line is
  empty), and the children of a child page are walked like those of any other block.
  For a root that is no child page, \<^verbatim>\<open>getPageContentPlain\<close> returns the line of the
  root followed by these lines.
\<close>

theorem ContentFlattener_preorder:
  assumes "FindBlockByID client bid = Inr block"
    and "if BlockHasChildren block
         then pagesOf client bid firstQuery blocks \<and> list_all2 (subtree client) blocks ts
         else ts = []"
  shows "(BlockHasChildren block \<longrightarrow>
          (\<exists>n. \<forall>k\<ge>n. getBlockChildrenContentPlain k client bid
             = Some (Inr (concat (map preorder ts)))))
     \<and> (\<not> isChildPage block \<longrightarrow>
          (\<exists>n. \<forall>k\<ge>n. getPageContentPlain k client bid
             = Some (Inr (convertBlockContentPlain block # concat (map preorder ts)))))"
proof (intro conjI impI)
  have c: "\<exists>n. \<forall>k\<ge>n. getBlockChildrenContentPlain k client bid
             = Some (Inr (concat (map preorder ts)))" if h: "BlockHasChildren block"
  proof -
    from h assms(2) have p: "pagesOf client bid firstQuery blocks"
      and l: "list_all2 (subtree client) blocks ts" by simp_all
    from l have "list_all2 (served client) blocks ts"
      by (rule list_all2_mono) (rule subtree_served)
    from pages_ok [OF p this] show ?thesis
      by (simp add: getBlockChildrenContentPlain_def)
  qed
  then show "\<exists>n. \<forall>k\<ge>n. getBlockChildrenContentPlain k client bid
             = Some (Inr (concat (map preorder ts)))" if "BlockHasChildren block"
    using that by simp
  show "\<exists>n. \<forall>k\<ge>n. getPageContentPlain k client bid
             = Some (Inr (convertBlockContentPlain block # concat (map preorder ts)))"
    if n: "\<not> isChildPage block"
  proof -
    from n have o: "ownLine block = [convertBlockContentPlain block]"
      by (simp add: isChildPage_def ownLine_def split: BlockBody.splits)
    show ?thesis
    proof (cases "BlockHasChildren block")
      case False
      with assms o show ?thesis by (simp add: getPageContentPlain_def)
    next
      case True
      from c [OF True] obtain n where
        "\<forall>k\<ge>n. getBlockChildrenContentPlain k client bid
             = Some (Inr (concat (map preorder ts)))" by blast
      then have "\<forall>k\<ge>n. getPageContentPlain k client bid
             = Some (Inr (convertBlockContentPlain block # concat (map preorder ts)))"
        using assms(1) True o by (simp add: getPageContentPlain_def)
      then show ?thesis by blast
    qed
  qed
qed

theorem ContentFlattener_preorder_witness:
  "(\<exists>n. \<forall>k\<ge>n. getBlockChildrenContentPlain k exampleClient ''page''
       = Some (Inr [''hi'', ''- a'', ''- b'']))
   \<and> (\<exists>n. \<forall>k\<ge>n. getPageContentPlain k exampleClient ''page''
       = Some (Inr [''# Intro'', ''hi'', ''- a'', ''- b'']))
   \<and> getPageContentPlain 5 exampleClient ''page''
       = Some (Inr [''# Intro'', ''hi'', ''- a'', ''- b''])"
proof -
  let ?b1 = "Block ''b1'' False (ParagraphBlock (plain ''hi''))"
  let ?b2 = "Block ''b2'' False (BulletedListItemBlock (plain ''a''))"
  let ?b3 = "Block ''b3'' False (BulletedListItemBlock (plain ''b''))"
  let ?page = "Block ''page'' True (Heading1Block (plain ''Intro''))"
  have f: "FindBlockByID exampleClient ''page'' = Inr ?page"
    by (simp add: exampleClient_def)
  have p2: "pagesOf exampleClient ''page'' (firstQuery\<lparr>StartCursor := ''c2''\<rparr>)
      (Results \<lparr>Results = [?b3], HasMore = False, NextCursor = None\<rparr>)"
    by (rule pagesOf.lastPage) (simp_all add: exampleClient_def firstQuery_def)
  have "pagesOf exampleClient ''page'' firstQuery
      (Results \<lparr>Results = [?b1, ?b2], HasMore = True, NextCursor = Some ''c2''\<rparr> @ [?b3])"
    by (rule pagesOf.nextPage [where cursor = "''c2''"])
       (use p2 in \<open>simp_all add: exampleClient_def firstQuery_def\<close>)
  then have p: "pagesOf exampleClient ''page'' firstQuery [?b1, ?b2, ?b3]" by simp
  have l: "list_all2 (subtree exampleClient) [?b1, ?b2, ?b3]
      [Node ?b1 [], Node ?b2 [], Node ?b3 []]"
    by (simp add: subtree.leaf)
  have n: "\<not> isChildPage ?page" by (simp add: isChildPage_def)
  from ContentFlattener_preorder [OF f, of "[?b1, ?b2, ?b3]" "[Node ?b1 [], Node ?b2 [], Node ?b3 []]"] p l n
  have "(\<exists>n. \<forall>k\<ge>n. getBlockChildrenContentPlain k exampleClient ''page''
       = Some (Inr [''hi'', ''- a'', ''- b'']))
     \<and> (\<exists>n. \<forall>k\<ge>n. getPageContentPlain k exampleClient ''page''
       = Some (Inr [''# Intro'', ''hi'', ''- a'', ''- b'']))"
    by (simp add: plain_def richTextToString_def)
  with intro_lines show ?thesis by simp
qed

text \<open>
  Claim C6 as stated fails: a child page below the root is not skipped. Here the root
  paragraph has one child, a child page, which has a paragraph "inside": the result
  has the empty line of the child page and the line of the paragraph inside it.
\<close>

theorem ContentFlattener_child_page_inlined:
  "getPageContentPlain 5 exampleClient ''root'' = Some (Inr [''r'', [], ''inside''])"
  by code_simp

text \<open>
  The line of a root that is a child page. The type switch of
  \<^verbatim>\<open>getPageContentPlain\<close> has a case for the child page held by value, under the
  comment "Most page blocks should be this type", which adds no line. The client
  hands blocks out by reference, and for those the other case adds the line of the
  root, which is empty.
\<close>

lemma child_page_root_line:
  assumes "FindBlockByID client bid = Inr block" and "\<not> BlockHasChildren block"
  shows "BlockBody block = ChildPageValue title \<Longrightarrow>
           getPageContentPlain k client bid = Some (Inr [])"
    and "BlockBody block = ChildPageBlock title \<Longrightarrow>
           getPageContentPlain k client bid = Some (Inr [[]])"
  using assms
  by (cases block; simp add: getPageContentPlain_def ownLine_def)+

section \<open>Verification: the live source\<close>

subsection \<open>Construction\<close>

lemma countMatches_filter:
  "countMatches cfg schema (d, h, names) =
     (d + length (dateMatches cfg schema), h + length (hideMatches cfg schema),
      names @ map fst schema)"
proof (induction schema arbitrary: d h names)
  case Nil
  then show ?case by (simp add: dateMatches_def hideMatches_def)
next
  case (Cons a schema)
  obtain name ty where a: "a = (name, ty)" by (cases a)
  show ?case
    unfolding a countMatches.simps Cons.IH
    by (simp add: dateMatches_def hideMatches_def)
qed

lemma NewSourceAPI_ok:
  assumes "FindDatabaseByID client (DatabaseID cfg) = Inr database"
    and "length (dateMatches cfg (DatabaseProperties database)) = 1"
    and "HideProperty cfg = [] \<or> length (hideMatches cfg (DatabaseProperties database)) = 1"
  shows "NewSourceAPI client cfg = Inr \<lparr>apiConfig = cfg, apiClient = client, apiDatabase = database\<rparr>"
  using assms by (auto simp: NewSourceAPI_def countMatches_filter)

text \<open>
  Claim C9. \<open>dateMatches\<close> lists the fields of the schema that have the type date
  and, when a date field is configured, that name. Construction succeeds only when
  there is exactly one; and when the database is found and there is not exactly one,
  construction fails with the error "no date property", which carries the configured
  name and the names of all fields of the schema.
\<close>

theorem NewSourceAPI_date_field:
  "(NewSourceAPI client cfg = Inr s \<longrightarrow>
      (\<exists>database. FindDatabaseByID client (DatabaseID cfg) = Inr database
         \<and> length (dateMatches cfg (DatabaseProperties database)) = 1))
   \<and> (FindDatabaseByID client (DatabaseID cfg) = Inr database
        \<and> length (dateMatches cfg (DatabaseProperties database)) \<noteq> 1 \<longrightarrow>
      NewSourceAPI client cfg =
        Inl (ErrNoDatePropertyIn (DateProperty cfg) (map fst (DatabaseProperties database))))"
  by (auto simp: NewSourceAPI_def countMatches_filter split: sum.splits if_splits)

theorem NewSourceAPI_date_field_witness:
  "NewSourceAPI exampleClient \<lparr>APIKey = ''secret'', DatabaseID = ''db'', DateProperty = [],
                               HideProperty = []\<rparr>
     = Inl (ErrNoDatePropertyIn [] [''Name'', ''When'', ''Due'', ''Done''])
   \<and> (\<exists>s. NewSourceAPI exampleClient \<lparr>APIKey = ''secret'', DatabaseID = ''db'',
                                       DateProperty = ''When'', HideProperty = []\<rparr> = Inr s)"
proof -
  let ?db = "\<lparr>DatabaseTitle = plain ''Events'',
              DatabaseProperties = [(''Name'', ''title''), (''When'', ''date''),
                                    (''Due'', ''date''), (''Done'', ''checkbox'')]\<rparr>"
  let ?cfg = "\<lparr>APIKey = ''secret'', DatabaseID = ''db'', DateProperty = [], HideProperty = []\<rparr>"
  have f: "FindDatabaseByID exampleClient (DatabaseID ?cfg) = Inr ?db"
    by (simp add: exampleClient_def)
  have n: "length (dateMatches ?cfg (DatabaseProperties ?db)) \<noteq> 1"
    by (simp add: dateMatches_def)
  from NewSourceAPI_date_field [of exampleClient ?cfg _ ?db] f n
  have "NewSourceAPI exampleClient ?cfg
     = Inl (ErrNoDatePropertyIn [] [''Name'', ''When'', ''Due'', ''Done''])" by simp
  moreover have "\<exists>s. NewSourceAPI exampleClient \<lparr>APIKey = ''secret'', DatabaseID = ''db'',
                                       DateProperty = ''When'', HideProperty = []\<rparr> = Inr s"
    by (simp add: NewSourceAPI_def exampleClient_def)
  ultimately show ?thesis by blast
qed

subsection \<open>The properties of an event\<close>

lemma pageLoop_list:
  "pageLoop cfg ps (t, s, e, l) = Inr (t', s', e', l')
     \<Longrightarrow> l' = l @ map named (filter (kept cfg) ps)"
proof (induction ps arbitrary: t s e l)
  case Nil
  then show ?case by simp
next
  case (Cons a ps)
  obtain name property where a: "a = (name, property)" by (cases a)
  from Cons.prems show ?case
    unfolding a
    by (auto simp: kept_def named_def split: if_splits option.splits dest!: Cons.IH)
qed

lemma mset_insertByName: "mset (insertByName p l) = add_mset p (mset l)"
  by (induction l) auto

lemma set_insertByName: "set (insertByName p l) = insert p (set l)"
  by (induction l) auto

lemma sorted_insertByName:
  "sorted (map NameString l) \<Longrightarrow> sorted (map NameString (insertByName p l))"
  by (induction l) (auto simp: set_insertByName)

lemma foldl_insertByName:
  "mset (foldl (\<lambda>sorted p. insertByName p sorted) acc l) = mset acc + mset l
   \<and> (sorted (map NameString acc)
        \<longrightarrow> sorted (map NameString (foldl (\<lambda>sorted p. insertByName p sorted) acc l)))"
  by (induction l arbitrary: acc) (auto simp: mset_insertByName sorted_insertByName)

lemma sortByName_sorted: "sorted (map NameString (sortByName l))"
  using foldl_insertByName [of "[]" l] by (simp add: sortByName_def)

lemma sortByName_mset: "mset (sortByName l) = mset l"
  using foldl_insertByName [of "[]" l] by (simp add: sortByName_def)

lemma eventFromPage_Properties:
  assumes "eventFromPage n s page = Some (Inr e)"
  shows "sorted (map NameString (Properties e))
     \<and> mset (Properties e) = mset (map named (filter (kept (apiConfig s)) (PageProperties page)))"
proof -
  from assms obtain title start en l where
    p: "pageLoop (apiConfig s) (PageProperties page) ([], zeroTime, zeroTime, []) = Inr (title, start, en, l)"
    by (auto simp: eventFromPage_def split: sum.splits)
  with assms have "Properties e = sortByName l"
    by (auto simp: eventFromPage_def dest!: andThen_Inr)
  moreover from pageLoop_list [OF p] have "l = map named (filter (kept (apiConfig s)) (PageProperties page))"
    by simp
  ultimately show ?thesis by (simp add: sortByName_sorted sortByName_mset)
qed

lemma alpha_zebra: "''Alpha'' < ''Zebra''" "\<not> ''Zebra'' < ''Alpha''"
  by code_simp+

lemma page_event:
  "eventFromPage 5 exampleAPI (examplePage (Some noon))
   = Some (Inr \<lparr>ID = ''page@notion-ical'', Title = ''Lunch'', Emoji = [],
                URL = ''https://notion.example/page'', Start = noon, End = noon,
                Content = [''# Intro'', ''hi'', ''- a'', ''- b''],
                Properties = [apiProperty (field ''rich_text'' ''Alpha''),
                              apiProperty (field ''rich_text'' ''Zebra'')]\<rparr>)"
  using intro_lines
  by (simp add: eventFromPage_def examplePage_def exampleAPI_def field_def plain_def
      richTextToString_def DBPropTypeTitle_def DBPropTypeDate_def DBPropTypeRelation_def
      sortByName_def alpha_zebra)

text \<open>
  A page whose date has no end: the loop follows the nil pointer, and the program
  stops with a panic.
\<close>

lemma page_without_end:
  "eventFromPage 5 exampleAPI (examplePage None) = Some (Inl PanicNilPointer)"
  by (simp add: eventFromPage_def examplePage_def exampleAPI_def field_def plain_def
      richTextToString_def DBPropTypeTitle_def DBPropTypeDate_def DBPropTypeRelation_def)

text \<open>
  Claim C8. The properties of an event of the snapshot source are the columns of the
  row, in column order, without the columns resolved as date and as title. The
  properties of an event of the live source are the fields of the page without the
  fields of type title, the date fields used for start and end, and the fields of
  type relation (\<open>kept\<close>), each under its display name (\<open>named\<close>): the same fields
  with the same multiplicity, sorted by display name in the order of strings as bytes.
\<close>

theorem properties_exact:
  "(eventFromCSVRow u src ord headers row = Inr e \<longrightarrow>
      (\<exists>m dateKey date titleKey title.
         headersAndRecordToMap headers row = Inr m
         \<and> dateColumn u src ord m = Inr (dateKey, date)
         \<and> titleColumn u ord m = Inr (titleKey, title)
         \<and> Properties e =
             map (\<lambda>(k, v). exportProperty k v)
               (filter (\<lambda>(k, v). k \<noteq> dateKey \<and> k \<noteq> titleKey) (zip headers row))))
   \<and> (eventFromPage n s page = Some (Inr e') \<longrightarrow>
        sorted (map NameString (Properties e'))
        \<and> mset (Properties e')
            = mset (map named (filter (kept (apiConfig s)) (PageProperties page))))"
  using eventFromCSVRow_Properties [of u src ord headers row e]
    eventFromPage_Properties [of n s page e']
  by blast

theorem properties_exact_witness:
  "eventFromCSVRow (\<lambda>s. s) (exampleExport [] []) (inOrder [''Name'', ''Date'', ''Notes''])
      [''Name'', ''Date'', ''Notes''] [''Lunch'', ''2023/01/02 12:00'', ''cash'']
   = Inr \<lparr>ID = eventID ''Lunch'' ''2023-01-02T12:00:00Z'', Title = ''Lunch'', Emoji = [],
          URL = [], Start = noon, End = noon, Content = [],
          Properties = [exportProperty ''Notes'' ''cash'' :: unit EventProperty]\<rparr>
   \<and> eventFromPage 5 exampleAPI (examplePage (Some noon))
   = Some (Inr \<lparr>ID = ''page@notion-ical'', Title = ''Lunch'', Emoji = [],
                URL = ''https://notion.example/page'', Start = noon, End = noon,
                Content = [''# Intro'', ''hi'', ''- a'', ''- b''],
                Properties = [apiProperty (field ''rich_text'' ''Alpha''),
                              apiProperty (field ''rich_text'' ''Zebra'')]\<rparr>)
   \<and> mset [apiProperty (field ''rich_text'' ''Alpha''), apiProperty (field ''rich_text'' ''Zebra'')]
       = mset (map named (filter (kept (apiConfig exampleAPI))
                 (PageProperties (examplePage (Some noon)))))"
proof -
  let ?e' = "\<lparr>ID = ''page@notion-ical'', Title = ''Lunch'', Emoji = [],
                URL = ''https://notion.example/page'', Start = noon, End = noon,
                Content = [''# Intro'', ''hi'', ''- a'', ''- b''],
                Properties = [apiProperty (field ''rich_text'' ''Alpha''),
                              apiProperty (field ''rich_text'' ''Zebra'')]\<rparr>"
  from properties_exact [where n = 5 and s = exampleAPI and page = "examplePage (Some noon)"
      and e' = ?e'] page_event
  have "mset (Properties ?e')
       = mset (map named (filter (kept (apiConfig exampleAPI))
                 (PageProperties (examplePage (Some noon)))))"
    by blast
  with row_A page_event show ?thesis by simp
qed


end
